theory Spec2Isabelle
  imports Main "HOL-Library.Sublist" "HOL-Library.AList"
begin

section \<open>JavaScript strings\<close>

text \<open>
  A JavaScript string is modelled as a \<^typ>\<open>string\<close>: a list of code units, here the
  code units below 256 (ASCII and Latin-1), which is all that the braces, pipes, dollar
  signs and white space of the spintax and placeholder syntax need.
\<close>

definition is_ws :: "char \<Rightarrow> bool" where
  \<comment> \<open>the white space and line terminators that \<open>String.prototype.trim\<close> strips,
      among the code units below 256: TAB, LF, VT, FF, CR, SP, NBSP\<close>
  "is_ws c \<longleftrightarrow> c \<in> {CHR 0x09, CHR 0x0A, CHR 0x0B, CHR 0x0C, CHR 0x0D, CHR 0x20, CHR 0xA0}"

definition trim :: "string \<Rightarrow> string" where
  "trim s = rev (dropWhile is_ws (rev (dropWhile is_ws s)))"

fun split_on :: "char \<Rightarrow> string \<Rightarrow> string list" where
  \<comment> \<open>\<open>s.split(sep)\<close> for a one-character separator: never the empty array\<close>
  "split_on sep [] = [[]]"
| "split_on sep (c # t) =
     (if c = sep then [] # split_on sep t
      else (case split_on sep t of [] \<Rightarrow> [[c]] | h # r \<Rightarrow> (c # h) # r))"

fun get_substitution :: "string \<Rightarrow> string \<Rightarrow> string \<Rightarrow> string \<Rightarrow> string" where
  \<comment> \<open>ECMAScript GetSubstitution for a match without capture groups: in the replacement
      text \<open>$$\<close> is a dollar sign, \<open>$&\<close> the matched text, \<open>$`\<close> the text before the
      match and \<open>$'\<close> the text after it; any other \<open>$\<close> stands for itself\<close>
  "get_substitution matched bef aft [] = []"
| "get_substitution matched bef aft (c # t) =
     (if c = CHR ''$'' then
        (case t of
           [] \<Rightarrow> [c]
         | d # u \<Rightarrow>
             if d = CHR ''$'' then CHR ''$'' # get_substitution matched bef aft u
             else if d = CHR ''&'' then matched @ get_substitution matched bef aft u
             else if d = CHR ''`'' then bef @ get_substitution matched bef aft u
             else if d = CHR 0x27 then aft @ get_substitution matched bef aft u
             else c # get_substitution matched bef aft t)
      else c # get_substitution matched bef aft t)"

fun find_first :: "string \<Rightarrow> string \<Rightarrow> string \<Rightarrow> (string \<times> string) option" where
  \<comment> \<open>the first occurrence of \<open>pat\<close> in the text still to scan: what is before it
      (\<open>pre\<close> is the text already scanned) and what is after it\<close>
  "find_first pat pre [] = (if pat = [] then Some (pre, []) else None)"
| "find_first pat pre (c # t) =
     (if prefix pat (c # t) then Some (pre, drop (length pat) (c # t))
      else find_first pat (pre @ [c]) t)"

definition replace_first :: "string \<Rightarrow> string \<Rightarrow> string \<Rightarrow> string" where
  \<comment> \<open>\<open>s.replace(pat, repl)\<close> with a string pattern: only the first occurrence is
      replaced, and \<open>repl\<close> is a replacement pattern, not a literal text\<close>
  "replace_first s pat repl =
     (case find_first pat [] s of
        None \<Rightarrow> s
      | Some (bef, aft) \<Rightarrow> bef @ get_substitution pat bef aft repl @ aft)"

section \<open>Spintax engine\<close>

definition is_brace :: "char \<Rightarrow> bool" where
  "is_brace c \<longleftrightarrow> c = CHR ''{'' \<or> c = CHR ''}''"

definition match_group_here :: "string \<Rightarrow> (string \<times> string) option" where
  \<comment> \<open>the regular expression \<open>\{([^{}]*)\}\<close> anchored at the head of the text: the
      captured content and the text after the match\<close>
  "match_group_here s =
     (case s of
        [] \<Rightarrow> None
      | c # t \<Rightarrow>
          if c \<noteq> CHR ''{'' then None
          else (case dropWhile (\<lambda>x. \<not> is_brace x) t of
                  [] \<Rightarrow> None
                | d # rest \<Rightarrow>
                    if d = CHR ''}'' then Some (takeWhile (\<lambda>x. \<not> is_brace x) t, rest)
                    else None))"

definition match_spin_here :: "string \<Rightarrow> (string \<times> string) option" where
  \<comment> \<open>the regular expression \<open>\{([^{}]*\|[^{}]*)\}\<close> anchored at the head of the text\<close>
  "match_spin_here s =
     (case match_group_here s of
        None \<Rightarrow> None
      | Some (content, rest) \<Rightarrow> if CHR ''|'' \<in> set content then Some (content, rest) else None)"

fun exec_spin :: "string \<Rightarrow> string option" where
  \<comment> \<open>\<open>spintaxPattern.exec(result)\<close> from \<open>lastIndex = 0\<close>: the content (capture 1) of
      the leftmost match\<close>
  "exec_spin [] = None"
| "exec_spin (c # t) =
     (case match_spin_here (c # t) of
        Some (content, rest) \<Rightarrow> Some content
      | None \<Rightarrow> exec_spin t)"

lemma match_group_here_shorter:
  "match_group_here s = Some (content, rest) \<Longrightarrow> length rest < length s"
proof -
  assume m: "match_group_here s = Some (content, rest)"
  then obtain t where s: "s = CHR ''{'' # t"
    by (auto simp: match_group_here_def split: list.splits if_splits)
  from m s obtain d where d: "dropWhile (\<lambda>x. \<not> is_brace x) t = d # rest"
    by (auto simp: match_group_here_def split: list.splits if_splits)
  have "length (dropWhile (\<lambda>x. \<not> is_brace x) t) \<le> length t"
    by (rule length_dropWhile_le)
  with d s show ?thesis by simp
qed

function all_groups :: "string \<Rightarrow> string list" where
  \<comment> \<open>the contents of the successive matches of the global \<open>\{([^{}]*)\}\<close>, as the
      \<open>while ((match = spintaxPattern.exec(text)) !== null)\<close> loop meets them\<close>
  "all_groups [] = []"
| "all_groups (c # t) =
     (case match_group_here (c # t) of
        Some (content, rest) \<Rightarrow> content # all_groups rest
      | None \<Rightarrow> all_groups t)"
  by pat_completeness auto
termination
  by (relation "measure length") (auto dest: match_group_here_shorter)

fun brace_scan :: "int \<Rightarrow> string \<Rightarrow> int \<times> bool" where
  \<comment> \<open>the first loop of \<open>validateSpintax\<close>: the final \<open>braceCount\<close> and whether the loop
      was left through its \<open>break\<close>, having pushed the closing-brace error\<close>
  "brace_scan n [] = (n, False)"
| "brace_scan n (c # t) =
     (if c = CHR ''{'' then brace_scan (n + 1) t
      else if c = CHR ''}'' then (if n - 1 < 0 then (n - 1, True) else brace_scan (n - 1) t)
      else brace_scan n t)"

definition group_errors :: "string \<Rightarrow> string list" where
  \<comment> \<open>the errors that one match contributes; \<open>match[0]\<close> is the content in its braces\<close>
  "group_errors content =
     (if CHR ''|'' \<notin> set content then
        [''Invalid spintax pattern: {'' @ content @ ''} (missing pipe separator)'']
      else if \<exists>opt \<in> set (split_on CHR ''|'' content). trim opt = [] then
        [''Empty option in spintax pattern: {'' @ content @ ''}'']
      else [])"

record validation =
  isValid :: bool
  errors :: "string list"

definition validateSpintax :: "string \<Rightarrow> validation" where
  "validateSpintax text =
     (let (braceCount, closing) = brace_scan 0 text;
          errs = (if closing then [''Unmatched closing brace }''] else [])
               @ (if braceCount > 0 then [''Unmatched opening brace {''] else [])
               @ concat (map group_errors (all_groups text))
      in \<lparr> isValid = (errs = []), errors = errs \<rparr>)"

partial_function (option) parse_loop :: "(nat \<Rightarrow> nat) \<Rightarrow> nat \<Rightarrow> string \<Rightarrow> string option" where
  \<comment> \<open>the loop of \<open>parseSpintax\<close>; \<open>None\<close> is a loop that never ends. \<open>rnd i\<close> stands for
      the \<open>i\<close>-th random draw: \<open>Math.floor(Math.random() * n)\<close> is \<open>rnd i mod n\<close>, which can
      be any index below \<open>n\<close>\<close>
  "parse_loop rnd i result =
     (case exec_spin result of
        None \<Rightarrow> Some result
      | Some content \<Rightarrow>
          (let fullMatch = CHR ''{'' # content @ ''}'';
               options = split_on CHR ''|'' content;
               randomOption = options ! (rnd i mod length options)
           in parse_loop rnd (Suc i) (replace_first result fullMatch (trim randomOption))))"

declare parse_loop.simps [code]

definition parseSpintax :: "(nat \<Rightarrow> nat) \<Rightarrow> string \<Rightarrow> string option" where
  "parseSpintax rnd text = parse_loop rnd 0 text"

section \<open>Data model\<close>

text \<open>
  The rows of the schema. A nullable column is an \<open>option\<close>, a timestamp is a number
  of milliseconds, and the \<open>jsonb\<close> metadata of a contact is the list of its keys and
  values in the order in which \<open>Object.keys\<close> yields them, with text values. A
  \<open>Partial<T>\<close> is the record of the properties supplied: \<open>None\<close> for a property that
  is not in the object, \<open>Some v\<close> for one that is.
\<close>

definition overlay :: "'a \<Rightarrow> 'a option \<Rightarrow> 'a" where
  \<comment> \<open>one property of \<open>{ ...x, ...update }\<close>: the update's value when it has one\<close>
  "overlay old new = (case new of None \<Rightarrow> old | Some v \<Rightarrow> v)"

record contact =
  contact_id :: "string"
  contact_name :: "string"
  contact_phone :: "string"
  contact_email :: "string option"
  contact_groups :: "string list option"
  contact_metadata :: "(string \<times> string) list option"
  contact_createdAt :: "int option"

record contact_update =
  set_contact_id :: "string option"
  set_contact_name :: "string option"
  set_contact_phone :: "string option"
  set_contact_email :: "(string option) option"
  set_contact_groups :: "(string list option) option"
  set_contact_metadata :: "((string \<times> string) list option) option"
  set_contact_createdAt :: "(int option) option"

definition no_contact_update :: contact_update where
  \<comment> \<open>the object \<open>{}\<close> as a \<open>Partial<Contact>\<close>: no property supplied\<close>
  "no_contact_update = \<lparr> set_contact_id = None,
      set_contact_name = None,
      set_contact_phone = None,
      set_contact_email = None,
      set_contact_groups = None,
      set_contact_metadata = None,
      set_contact_createdAt = None \<rparr>"

definition spread_contact :: "contact \<Rightarrow> contact_update \<Rightarrow> contact" where
  \<comment> \<open>\<open>{ ...x, ...update }\<close>\<close>
  "spread_contact x u = \<lparr> contact_id = overlay (contact_id x) (set_contact_id u),
      contact_name = overlay (contact_name x) (set_contact_name u),
      contact_phone = overlay (contact_phone x) (set_contact_phone u),
      contact_email = overlay (contact_email x) (set_contact_email u),
      contact_groups = overlay (contact_groups x) (set_contact_groups u),
      contact_metadata = overlay (contact_metadata x) (set_contact_metadata u),
      contact_createdAt = overlay (contact_createdAt x) (set_contact_createdAt u) \<rparr>"

record session =
  session_id :: "string"
  session_sessionId :: "string"
  session_phone :: "string option"
  session_status :: "string"
  session_qrCode :: "string option"
  session_lastSeen :: "int option"
  session_createdAt :: "int option"

record session_update =
  set_session_id :: "string option"
  set_session_sessionId :: "string option"
  set_session_phone :: "(string option) option"
  set_session_status :: "string option"
  set_session_qrCode :: "(string option) option"
  set_session_lastSeen :: "(int option) option"
  set_session_createdAt :: "(int option) option"

definition no_session_update :: session_update where
  \<comment> \<open>the object \<open>{}\<close> as a \<open>Partial<WhatsappSession>\<close>: no property supplied\<close>
  "no_session_update = \<lparr> set_session_id = None,
      set_session_sessionId = None,
      set_session_phone = None,
      set_session_status = None,
      set_session_qrCode = None,
      set_session_lastSeen = None,
      set_session_createdAt = None \<rparr>"

definition spread_session :: "session \<Rightarrow> session_update \<Rightarrow> session" where
  \<comment> \<open>\<open>{ ...x, ...update }\<close>\<close>
  "spread_session x u = \<lparr> session_id = overlay (session_id x) (set_session_id u),
      session_sessionId = overlay (session_sessionId x) (set_session_sessionId u),
      session_phone = overlay (session_phone x) (set_session_phone u),
      session_status = overlay (session_status x) (set_session_status u),
      session_qrCode = overlay (session_qrCode x) (set_session_qrCode u),
      session_lastSeen = overlay (session_lastSeen x) (set_session_lastSeen u),
      session_createdAt = overlay (session_createdAt x) (set_session_createdAt u) \<rparr>"

record campaign =
  campaign_id :: "string"
  campaign_name :: "string"
  campaign_message :: "string"
  campaign_contactGroups :: "string list option"
  campaign_mediaUrl :: "string option"
  campaign_mediaType :: "string option"
  campaign_status :: "string"
  campaign_scheduledAt :: "int option"
  campaign_rateLimit :: "int option"
  campaign_totalRecipients :: "int option"
  campaign_messagesSent :: "int option"
  campaign_messagesDelivered :: "int option"
  campaign_messagesResponded :: "int option"
  campaign_sessionId :: "string option"
  campaign_createdAt :: "int option"

record campaign_update =
  set_campaign_id :: "string option"
  set_campaign_name :: "string option"
  set_campaign_message :: "string option"
  set_campaign_contactGroups :: "(string list option) option"
  set_campaign_mediaUrl :: "(string option) option"
  set_campaign_mediaType :: "(string option) option"
  set_campaign_status :: "string option"
  set_campaign_scheduledAt :: "(int option) option"
  set_campaign_rateLimit :: "(int option) option"
  set_campaign_totalRecipients :: "(int option) option"
  set_campaign_messagesSent :: "(int option) option"
  set_campaign_messagesDelivered :: "(int option) option"
  set_campaign_messagesResponded :: "(int option) option"
  set_campaign_sessionId :: "(string option) option"
  set_campaign_createdAt :: "(int option) option"

definition no_campaign_update :: campaign_update where
  \<comment> \<open>the object \<open>{}\<close> as a \<open>Partial<Campaign>\<close>: no property supplied\<close>
  "no_campaign_update = \<lparr> set_campaign_id = None,
      set_campaign_name = None,
      set_campaign_message = None,
      set_campaign_contactGroups = None,
      set_campaign_mediaUrl = None,
      set_campaign_mediaType = None,
      set_campaign_status = None,
      set_campaign_scheduledAt = None,
      set_campaign_rateLimit = None,
      set_campaign_totalRecipients = None,
      set_campaign_messagesSent = None,
      set_campaign_messagesDelivered = None,
      set_campaign_messagesResponded = None,
      set_campaign_sessionId = None,
      set_campaign_createdAt = None \<rparr>"

definition spread_campaign :: "campaign \<Rightarrow> campaign_update \<Rightarrow> campaign" where
  \<comment> \<open>\<open>{ ...x, ...update }\<close>\<close>
  "spread_campaign x u = \<lparr> campaign_id = overlay (campaign_id x) (set_campaign_id u),
      campaign_name = overlay (campaign_name x) (set_campaign_name u),
      campaign_message = overlay (campaign_message x) (set_campaign_message u),
      campaign_contactGroups = overlay (campaign_contactGroups x) (set_campaign_contactGroups u),
      campaign_mediaUrl = overlay (campaign_mediaUrl x) (set_campaign_mediaUrl u),
      campaign_mediaType = overlay (campaign_mediaType x) (set_campaign_mediaType u),
      campaign_status = overlay (campaign_status x) (set_campaign_status u),
      campaign_scheduledAt = overlay (campaign_scheduledAt x) (set_campaign_scheduledAt u),
      campaign_rateLimit = overlay (campaign_rateLimit x) (set_campaign_rateLimit u),
      campaign_totalRecipients = overlay (campaign_totalRecipients x) (set_campaign_totalRecipients u),
      campaign_messagesSent = overlay (campaign_messagesSent x) (set_campaign_messagesSent u),
      campaign_messagesDelivered = overlay (campaign_messagesDelivered x) (set_campaign_messagesDelivered u),
      campaign_messagesResponded = overlay (campaign_messagesResponded x) (set_campaign_messagesResponded u),
      campaign_sessionId = overlay (campaign_sessionId x) (set_campaign_sessionId u),
      campaign_createdAt = overlay (campaign_createdAt x) (set_campaign_createdAt u) \<rparr>"

record auto_reply_rule =
  rule_id :: "string"
  rule_name :: "string"
  rule_keywords :: "string list option"
  rule_triggerType :: "string"
  rule_response :: "string"
  rule_delay :: "int option"
  rule_isActive :: "bool option"
  rule_businessHoursOnly :: "bool option"
  rule_businessHoursStart :: "string option"
  rule_businessHoursEnd :: "string option"
  rule_sessionId :: "string option"
  rule_createdAt :: "int option"

record auto_reply_rule_update =
  set_rule_id :: "string option"
  set_rule_name :: "string option"
  set_rule_keywords :: "(string list option) option"
  set_rule_triggerType :: "string option"
  set_rule_response :: "string option"
  set_rule_delay :: "(int option) option"
  set_rule_isActive :: "(bool option) option"
  set_rule_businessHoursOnly :: "(bool option) option"
  set_rule_businessHoursStart :: "(string option) option"
  set_rule_businessHoursEnd :: "(string option) option"
  set_rule_sessionId :: "(string option) option"
  set_rule_createdAt :: "(int option) option"

definition no_auto_reply_rule_update :: auto_reply_rule_update where
  \<comment> \<open>the object \<open>{}\<close> as a \<open>Partial<AutoReplyRule>\<close>: no property supplied\<close>
  "no_auto_reply_rule_update = \<lparr> set_rule_id = None,
      set_rule_name = None,
      set_rule_keywords = None,
      set_rule_triggerType = None,
      set_rule_response = None,
      set_rule_delay = None,
      set_rule_isActive = None,
      set_rule_businessHoursOnly = None,
      set_rule_businessHoursStart = None,
      set_rule_businessHoursEnd = None,
      set_rule_sessionId = None,
      set_rule_createdAt = None \<rparr>"

definition spread_auto_reply_rule :: "auto_reply_rule \<Rightarrow> auto_reply_rule_update \<Rightarrow> auto_reply_rule" where
  \<comment> \<open>\<open>{ ...x, ...update }\<close>\<close>
  "spread_auto_reply_rule x u = \<lparr> rule_id = overlay (rule_id x) (set_rule_id u),
      rule_name = overlay (rule_name x) (set_rule_name u),
      rule_keywords = overlay (rule_keywords x) (set_rule_keywords u),
      rule_triggerType = overlay (rule_triggerType x) (set_rule_triggerType u),
      rule_response = overlay (rule_response x) (set_rule_response u),
      rule_delay = overlay (rule_delay x) (set_rule_delay u),
      rule_isActive = overlay (rule_isActive x) (set_rule_isActive u),
      rule_businessHoursOnly = overlay (rule_businessHoursOnly x) (set_rule_businessHoursOnly u),
      rule_businessHoursStart = overlay (rule_businessHoursStart x) (set_rule_businessHoursStart u),
      rule_businessHoursEnd = overlay (rule_businessHoursEnd x) (set_rule_businessHoursEnd u),
      rule_sessionId = overlay (rule_sessionId x) (set_rule_sessionId u),
      rule_createdAt = overlay (rule_createdAt x) (set_rule_createdAt u) \<rparr>"

record queued_message =
  msg_id :: "string"
  msg_campaignId :: "string option"
  msg_contactId :: "string option"
  msg_message :: "string"
  msg_mediaUrl :: "string option"
  msg_mediaType :: "string option"
  msg_status :: "string"
  msg_scheduledAt :: "int option"
  msg_sentAt :: "int option"
  msg_deliveredAt :: "int option"
  msg_errorMessage :: "string option"
  msg_sessionId :: "string option"
  msg_createdAt :: "int option"

record queued_message_update =
  set_msg_id :: "string option"
  set_msg_campaignId :: "(string option) option"
  set_msg_contactId :: "(string option) option"
  set_msg_message :: "string option"
  set_msg_mediaUrl :: "(string option) option"
  set_msg_mediaType :: "(string option) option"
  set_msg_status :: "string option"
  set_msg_scheduledAt :: "(int option) option"
  set_msg_sentAt :: "(int option) option"
  set_msg_deliveredAt :: "(int option) option"
  set_msg_errorMessage :: "(string option) option"
  set_msg_sessionId :: "(string option) option"
  set_msg_createdAt :: "(int option) option"

definition no_queued_message_update :: queued_message_update where
  \<comment> \<open>the object \<open>{}\<close> as a \<open>Partial<MessageQueue>\<close>: no property supplied\<close>
  "no_queued_message_update = \<lparr> set_msg_id = None,
      set_msg_campaignId = None,
      set_msg_contactId = None,
      set_msg_message = None,
      set_msg_mediaUrl = None,
      set_msg_mediaType = None,
      set_msg_status = None,
      set_msg_scheduledAt = None,
      set_msg_sentAt = None,
      set_msg_deliveredAt = None,
      set_msg_errorMessage = None,
      set_msg_sessionId = None,
      set_msg_createdAt = None \<rparr>"

definition spread_queued_message :: "queued_message \<Rightarrow> queued_message_update \<Rightarrow> queued_message" where
  \<comment> \<open>\<open>{ ...x, ...update }\<close>\<close>
  "spread_queued_message x u = \<lparr> msg_id = overlay (msg_id x) (set_msg_id u),
      msg_campaignId = overlay (msg_campaignId x) (set_msg_campaignId u),
      msg_contactId = overlay (msg_contactId x) (set_msg_contactId u),
      msg_message = overlay (msg_message x) (set_msg_message u),
      msg_mediaUrl = overlay (msg_mediaUrl x) (set_msg_mediaUrl u),
      msg_mediaType = overlay (msg_mediaType x) (set_msg_mediaType u),
      msg_status = overlay (msg_status x) (set_msg_status u),
      msg_scheduledAt = overlay (msg_scheduledAt x) (set_msg_scheduledAt u),
      msg_sentAt = overlay (msg_sentAt x) (set_msg_sentAt u),
      msg_deliveredAt = overlay (msg_deliveredAt x) (set_msg_deliveredAt u),
      msg_errorMessage = overlay (msg_errorMessage x) (set_msg_errorMessage u),
      msg_sessionId = overlay (msg_sessionId x) (set_msg_sessionId u),
      msg_createdAt = overlay (msg_createdAt x) (set_msg_createdAt u) \<rparr>"

record analytic =
  analytic_id :: string
  analytic_messageId :: "string option"
  analytic_contactPhone :: string
  analytic_messageType :: string
  analytic_timestamp :: "int option"
  analytic_sessionId :: "string option"

record insert_message =
  ins_campaignId :: "string option"
  ins_contactId :: "string option"
  ins_message :: string
  ins_mediaUrl :: "string option"
  ins_mediaType :: "string option"
  ins_status :: "string option"
  ins_scheduledAt :: "int option"
  ins_errorMessage :: "string option"
  ins_sessionId :: "string option"

section \<open>Storage\<close>

text \<open>
  \<open>MemStorage\<close> keeps one \<open>Map\<close> per table. A \<open>Map\<close> iterates in insertion order, so
  each is a list of keys and values: \<open>get\<close> is \<^const>\<open>map_of\<close>, \<open>set\<close> is
  \<^const>\<open>AList.update\<close> (in place for a key that is there, at the end for a new one),
  \<open>values()\<close> is \<open>map snd\<close>. With the six tables the state holds what the services
  take from their environment: how many identifiers \<open>randomUUID\<close> has drawn, the clock
  that \<open>new Date()\<close> reads, how often the gateway was asked to send, and what it sent
  (session name, phone number, text); the timers of delayed auto-replies (due time,
  session, phone number, text); the tasks that the cron library holds, each with its
  schedule, the campaign that its callback closes over and whether it is running; and
  the scheduler's \<open>scheduledJobs\<close>, from campaign identifiers to tasks (by position in
  the library's list).
\<close>

datatype cron_field = Every | At nat

record cron_task =
  task_expression :: "cron_field list"
  task_campaign :: campaign
  task_running :: bool

record world =
  contacts :: "(string \<times> contact) list"
  sessions :: "(string \<times> session) list"
  campaigns :: "(string \<times> campaign) list"
  autoReplyRules :: "(string \<times> auto_reply_rule) list"
  messageQueue :: "(string \<times> queued_message) list"
  messageAnalytics :: "(string \<times> analytic) list"
  uuid_count :: nat
  clock :: int
  gateway_calls :: nat
  outbox :: "(string \<times> string \<times> string) list"
  reply_timers :: "(int \<times> string \<times> string \<times> string) list"
  cron_tasks :: "cron_task list"
  scheduledJobs :: "(string \<times> nat) list"

definition truthy :: "string option \<Rightarrow> bool" where
  \<comment> \<open>a nullable text in a condition: neither \<open>null\<close> nor the empty text\<close>
  "truthy x \<longleftrightarrow> (case x of None \<Rightarrow> False | Some s \<Rightarrow> s \<noteq> [])"

definition or_null :: "string option \<Rightarrow> string option" where
  \<comment> \<open>\<open>x || null\<close> on a nullable text\<close>
  "or_null x = (if truthy x then x else None)"

definition getContacts :: "world \<Rightarrow> contact list" where
  "getContacts w = map snd (contacts w)"

definition getContact :: "string \<Rightarrow> world \<Rightarrow> contact option" where
  "getContact i w = map_of (contacts w) i"

definition updateContact :: "string \<Rightarrow> contact_update \<Rightarrow> world \<Rightarrow> contact option \<times> world" where
  "updateContact i contactUpdate w =
     (case map_of (contacts w) i of
        None \<Rightarrow> (None, w)
      | Some contact \<Rightarrow>
          (let updated = spread_contact contact contactUpdate
           in (Some updated, w\<lparr>contacts := AList.update i updated (contacts w)\<rparr>)))"

definition getContactsByGroups :: "string list \<Rightarrow> world \<Rightarrow> contact list" where
  "getContactsByGroups groups w =
     filter (\<lambda>contact. case contact_groups contact of
                          None \<Rightarrow> False
                        | Some gs \<Rightarrow> \<exists>g \<in> set gs. g \<in> set groups)
       (map snd (contacts w))"

definition getSessions :: "world \<Rightarrow> session list" where
  "getSessions w = map snd (sessions w)"

definition updateSession :: "string \<Rightarrow> session_update \<Rightarrow> world \<Rightarrow> session option \<times> world" where
  "updateSession i sessionUpdate w =
     (case map_of (sessions w) i of
        None \<Rightarrow> (None, w)
      | Some session \<Rightarrow>
          (let updated = spread_session session sessionUpdate
           in (Some updated, w\<lparr>sessions := AList.update i updated (sessions w)\<rparr>)))"

definition getCampaign :: "string \<Rightarrow> world \<Rightarrow> campaign option" where
  "getCampaign i w = map_of (campaigns w) i"

definition updateCampaign :: "string \<Rightarrow> campaign_update \<Rightarrow> world \<Rightarrow> campaign option \<times> world" where
  "updateCampaign i campaignUpdate w =
     (case map_of (campaigns w) i of
        None \<Rightarrow> (None, w)
      | Some campaign \<Rightarrow>
          (let updated = spread_campaign campaign campaignUpdate
           in (Some updated, w\<lparr>campaigns := AList.update i updated (campaigns w)\<rparr>)))"

definition getAutoReplyRules :: "string option \<Rightarrow> world \<Rightarrow> auto_reply_rule list" where
  \<comment> \<open>the optional argument filters only when it is a non-empty text\<close>
  "getAutoReplyRules sessionId w =
     (let rules = map snd (autoReplyRules w)
      in if truthy sessionId then filter (\<lambda>rule. rule_sessionId rule = sessionId) rules
         else rules)"

definition updateAutoReplyRule ::
  "string \<Rightarrow> auto_reply_rule_update \<Rightarrow> world \<Rightarrow> auto_reply_rule option \<times> world" where
  "updateAutoReplyRule i ruleUpdate w =
     (case map_of (autoReplyRules w) i of
        None \<Rightarrow> (None, w)
      | Some rule \<Rightarrow>
          (let updated = spread_auto_reply_rule rule ruleUpdate
           in (Some updated, w\<lparr>autoReplyRules := AList.update i updated (autoReplyRules w)\<rparr>)))"

definition getMessageQueue :: "world \<Rightarrow> queued_message list" where
  \<comment> \<open>called without a session: every entry\<close>
  "getMessageQueue w = map snd (messageQueue w)"

definition createQueuedMessage ::
  "(nat \<Rightarrow> string) \<Rightarrow> insert_message \<Rightarrow> world \<Rightarrow> queued_message \<times> world" where
  \<comment> \<open>\<open>uuid n\<close> is the \<open>n\<close>-th identifier that \<open>randomUUID\<close> draws\<close>
  "createQueuedMessage uuid insertMessage w =
     (let i = uuid (uuid_count w);
          message = \<lparr> msg_id = i,
            msg_campaignId = or_null (ins_campaignId insertMessage),
            msg_contactId = or_null (ins_contactId insertMessage),
            msg_message = ins_message insertMessage,
            msg_mediaUrl = or_null (ins_mediaUrl insertMessage),
            msg_mediaType = or_null (ins_mediaType insertMessage),
            msg_status = (case ins_status insertMessage of
                            None \<Rightarrow> ''pending''
                          | Some st \<Rightarrow> if st = [] then ''pending'' else st),
            msg_scheduledAt = ins_scheduledAt insertMessage,
            msg_sentAt = None,
            msg_deliveredAt = None,
            msg_errorMessage = or_null (ins_errorMessage insertMessage),
            msg_sessionId = or_null (ins_sessionId insertMessage),
            msg_createdAt = Some (clock w) \<rparr>
      in (message, w\<lparr>messageQueue := AList.update i message (messageQueue w),
                      uuid_count := Suc (uuid_count w)\<rparr>))"

definition updateQueuedMessage ::
  "string \<Rightarrow> queued_message_update \<Rightarrow> world \<Rightarrow> queued_message option \<times> world" where
  "updateQueuedMessage i messageUpdate w =
     (case map_of (messageQueue w) i of
        None \<Rightarrow> (None, w)
      | Some message \<Rightarrow>
          (let updated = spread_queued_message message messageUpdate
           in (Some updated, w\<lparr>messageQueue := AList.update i updated (messageQueue w)\<rparr>)))"

definition getPendingMessages :: "string \<Rightarrow> world \<Rightarrow> queued_message list" where
  "getPendingMessages sessionId w =
     filter (\<lambda>msg. msg_sessionId msg = Some sessionId \<and> msg_status msg = ''pending'')
       (map snd (messageQueue w))"

definition createMessageAnalytic ::
  "(nat \<Rightarrow> string) \<Rightarrow> string \<Rightarrow> string \<Rightarrow> string \<Rightarrow> world \<Rightarrow> world" where
  \<comment> \<open>the callers pass \<open>messageId: null\<close> and \<open>timestamp: new Date()\<close>; what varies is
      the phone number, the message type and the session\<close>
  "createMessageAnalytic uuid contactPhone messageType sessionId w =
     (let i = uuid (uuid_count w);
          messageAnalytic = \<lparr> analytic_id = i, analytic_messageId = None,
            analytic_contactPhone = contactPhone, analytic_messageType = messageType,
            analytic_timestamp = Some (clock w), analytic_sessionId = Some sessionId \<rparr>
      in w\<lparr>messageAnalytics := AList.update i messageAnalytic (messageAnalytics w),
            uuid_count := Suc (uuid_count w)\<rparr>)"

section \<open>Message personalizer\<close>

lemma prefix_drop_shorter:
  "pat \<noteq> [] \<Longrightarrow> prefix pat s \<Longrightarrow> length s - length pat < length s"
  by (auto simp: prefix_def)

function replace_all :: "string \<Rightarrow> string \<Rightarrow> string \<Rightarrow> string \<Rightarrow> string" where
  \<comment> \<open>the matches of a literal pattern from left to right, without overlap, each
      replaced by the replacement pattern; \<open>pre\<close> is the text already scanned, so that
      \<open>$`\<close> and \<open>$'\<close> see the original text\<close>
  "replace_all pat repl pre s =
     (if pat \<noteq> [] \<and> prefix pat s then
        get_substitution pat pre (drop (length pat) s) repl
          @ replace_all pat repl (pre @ pat) (drop (length pat) s)
      else (case s of
              [] \<Rightarrow> []
            | c # t \<Rightarrow> c # replace_all pat repl (pre @ [c]) t))"
  by pat_completeness auto
termination
  by (relation "measure (\<lambda>(pat, repl, pre, s). length s)") (auto simp: prefix_drop_shorter)

declare replace_all.simps [simp del]

definition replace_global :: "string \<Rightarrow> string \<Rightarrow> string \<Rightarrow> string" where
  \<comment> \<open>\<open>s.replace(/lit/g, repl)\<close> for a regular expression that matches the text \<open>lit\<close>
      and nothing else\<close>
  "replace_global s lit repl = replace_all lit repl [] s"

datatype js_error = SyntaxError | TypeError

definition regex_syntax :: "char \<Rightarrow> bool" where
  \<comment> \<open>the characters that are syntax in a regular expression pattern\<close>
  "regex_syntax c \<longleftrightarrow>
     c \<in> {CHR 0x5C, CHR ''^'', CHR ''$'', CHR ''.'', CHR ''*'', CHR ''+'', CHR ''?'', CHR ''('',
          CHR '')'', CHR ''['', CHR '']'', CHR ''{'', CHR ''}'', CHR ''|''}"

datatype key_pattern = Literal string | Malformed | Uninterpreted

definition compile_key :: "string \<Rightarrow> key_pattern" where
  \<comment> \<open>\<open>new RegExp(`\\{${key}\\}`, 'g')\<close>. A key without syntax characters gives the
      pattern that matches \<open>{key}\<close> literally. A key with an opening parenthesis and no
      closing parenthesis, bracket or backslash opens a group that nothing closes: the
      constructor throws a \<open>SyntaxError\<close>. The other keys are patterns that this model
      does not interpret.\<close>
  "compile_key key =
     (if \<forall>c \<in> set key. \<not> regex_syntax c then Literal (CHR ''{'' # key @ ''}'')
      else if CHR ''('' \<in> set key \<and> CHR '')'' \<notin> set key \<and> CHR ''['' \<notin> set key
              \<and> CHR 0x5C \<notin> set key then Malformed
      else Uninterpreted)"

fun replace_keys ::
  "(string \<Rightarrow> string \<Rightarrow> string \<Rightarrow> js_error + string) \<Rightarrow> (string \<times> string) list \<Rightarrow> string
     \<Rightarrow> js_error + string" where
  \<comment> \<open>the \<open>forEach\<close> over the metadata keys; \<open>engine key repl message\<close> is what the
      regular expression engine makes of a key that the model does not interpret\<close>
  "replace_keys engine [] message = Inr message"
| "replace_keys engine ((key, val) # kvs) message =
     (case compile_key key of
        Malformed \<Rightarrow> Inl SyntaxError
      | Literal lit \<Rightarrow> replace_keys engine kvs (replace_global message lit val)
      | Uninterpreted \<Rightarrow>
          (case engine key val message of
             Inl e \<Rightarrow> Inl e
           | Inr replaced \<Rightarrow> replace_keys engine kvs replaced))"

definition personalizeMessage ::
  "(string \<Rightarrow> string \<Rightarrow> string \<Rightarrow> js_error + string) \<Rightarrow> string \<Rightarrow> contact \<Rightarrow> js_error + string" where
  "personalizeMessage engine template contact =
     (let message = template;
          message = replace_global message ''{name}''
                      (if contact_name contact = [] then ''there'' else contact_name contact);
          message = replace_global message ''{phone}'' (contact_phone contact);
          message = replace_global message ''{email}''
                      (case contact_email contact of None \<Rightarrow> [] | Some e \<Rightarrow> e)
      in case contact_metadata contact of
           None \<Rightarrow> Inr message
         | Some metadata \<Rightarrow> replace_keys engine metadata message)"

section \<open>Campaign expander\<close>

fun enqueue_contacts ::
  "(string \<Rightarrow> string \<Rightarrow> string \<Rightarrow> js_error + string) \<Rightarrow> (nat \<Rightarrow> nat \<Rightarrow> nat) \<Rightarrow> (nat \<Rightarrow> string)
     \<Rightarrow> campaign \<Rightarrow> nat \<Rightarrow> contact list \<Rightarrow> world \<Rightarrow> (js_error option \<times> world) option" where
  \<comment> \<open>the \<open>for (const contact of contacts)\<close> loop of \<open>processCampaign\<close>, from the
      \<open>j\<close>-th contact on: \<open>None\<close> when a rendering never ends, else the error thrown, if
      any, and the store at that moment. \<open>rnd j\<close> is the random source of the \<open>j\<close>-th
      rendering.\<close>
  "enqueue_contacts engine rnd uuid campaign j [] w = Some (None, w)"
| "enqueue_contacts engine rnd uuid campaign j (contact # rest) w =
     (case personalizeMessage engine (campaign_message campaign) contact of
        Inl e \<Rightarrow> Some (Some e, w)
      | Inr personalized \<Rightarrow>
          (case parseSpintax (rnd j) personalized of
             None \<Rightarrow> None
           | Some personalizedMessage \<Rightarrow>
               enqueue_contacts engine rnd uuid campaign (Suc j) rest
                 (snd (createQueuedMessage uuid
                    \<lparr> ins_campaignId = Some (campaign_id campaign),
                      ins_contactId = Some (contact_id contact),
                      ins_message = personalizedMessage,
                      ins_mediaUrl = campaign_mediaUrl campaign,
                      ins_mediaType = campaign_mediaType campaign,
                      ins_status = Some ''pending'',
                      ins_scheduledAt = Some (clock w),
                      ins_errorMessage = None,
                      ins_sessionId = campaign_sessionId campaign \<rparr> w))))"

definition processCampaign ::
  "(string \<Rightarrow> string \<Rightarrow> string \<Rightarrow> js_error + string) \<Rightarrow> (nat \<Rightarrow> nat \<Rightarrow> nat) \<Rightarrow> (nat \<Rightarrow> string)
     \<Rightarrow> campaign \<Rightarrow> world \<Rightarrow> world option" where
  \<comment> \<open>\<open>None\<close>: the call never returns. An error is caught and never leaves the call.\<close>
  "processCampaign engine rnd uuid campaign w =
     (let w1 = snd (updateCampaign (campaign_id campaign)
                 (no_campaign_update\<lparr>set_campaign_status := Some ''sending''\<rparr>) w);
          contacts = (case campaign_contactGroups campaign of
                        None \<Rightarrow> getContacts w1
                      | Some groups \<Rightarrow>
                          if length groups = 0 then getContacts w1
                          else getContactsByGroups groups w1);
          w2 = snd (updateCampaign (campaign_id campaign)
                 (no_campaign_update\<lparr>set_campaign_totalRecipients :=
                    Some (Some (int (length contacts)))\<rparr>) w1)
      in case enqueue_contacts engine rnd uuid campaign 0 contacts w2 of
           None \<Rightarrow> None
         | Some (None, w3) \<Rightarrow> Some w3
         | Some (Some e, w3) \<Rightarrow>
             Some (snd (updateCampaign (campaign_id campaign)
                     (no_campaign_update\<lparr>set_campaign_status := Some ''failed''\<rparr>) w3)))"

section \<open>Dispatch loop\<close>

datatype send_outcome = Sent | Failed string | FailedOther

definition sendMessage ::
  "(nat \<Rightarrow> send_outcome) \<Rightarrow> (nat \<Rightarrow> string) \<Rightarrow> string \<Rightarrow> string \<Rightarrow> string \<Rightarrow> world
     \<Rightarrow> send_outcome \<times> world" where
  \<comment> \<open>\<open>whatsappService.sendMessage\<close>. Whether the session is connected, the media file
      readable and the socket willing is the environment's: \<open>gateway n\<close> is the outcome of
      the \<open>n\<close>-th call, \<open>Failed e\<close> for a thrown \<open>Error\<close> with message \<open>e\<close>, \<open>FailedOther\<close>
      for a thrown value that is no \<open>Error\<close>. A message that went out is logged as
      \<open>sent\<close> in the analytics.\<close>
  "sendMessage gateway uuid sessionId toNumber message w =
     (let outcome = gateway (gateway_calls w);
          w1 = w\<lparr>gateway_calls := Suc (gateway_calls w)\<rparr>
      in case outcome of
           Sent \<Rightarrow>
             (Sent, createMessageAnalytic uuid toNumber ''sent'' sessionId
                      (w1\<lparr>outbox := outbox w1 @ [(sessionId, toNumber, message)]\<rparr>))
         | Failed e \<Rightarrow> (Failed e, w1)
         | FailedOther \<Rightarrow> (FailedOther, w1))"

definition mark_sent :: "queued_message \<Rightarrow> world \<Rightarrow> world" where
  \<comment> \<open>after a send: the entry becomes \<open>sent\<close> and the owning campaign, when the entry
      names one that is stored, counts one more message\<close>
  "mark_sent message w =
     (let w1 = snd (updateQueuedMessage (msg_id message)
                 (no_queued_message_update\<lparr>set_msg_status := Some ''sent'',
                    set_msg_sentAt := Some (Some (clock w))\<rparr>) w)
      in case msg_campaignId message of
           None \<Rightarrow> w1
         | Some campaignId \<Rightarrow>
             if campaignId = [] then w1
             else (case getCampaign campaignId w1 of
                     None \<Rightarrow> w1
                   | Some currentCampaign \<Rightarrow>
                       snd (updateCampaign campaignId
                         (no_campaign_update\<lparr>set_campaign_messagesSent :=
                            Some (Some ((case campaign_messagesSent currentCampaign of
                                           None \<Rightarrow> 0 | Some n \<Rightarrow> n) + 1))\<rparr>) w1)))"

definition mark_failed :: "queued_message \<Rightarrow> string \<Rightarrow> world \<Rightarrow> world" where
  \<comment> \<open>the \<open>catch\<close> of one send\<close>
  "mark_failed message detail w =
     snd (updateQueuedMessage (msg_id message)
       (no_queued_message_update\<lparr>set_msg_status := Some ''failed'',
          set_msg_errorMessage := Some (Some detail)\<rparr>) w)"

fun send_batch ::
  "(nat \<Rightarrow> send_outcome) \<Rightarrow> (nat \<Rightarrow> string) \<Rightarrow> session \<Rightarrow> int \<Rightarrow> queued_message list \<Rightarrow> world
     \<Rightarrow> world" where
  \<comment> \<open>the \<open>for (const message of messagesToProcess)\<close> loop; the two seconds between the
      messages of a batch of more than one move the clock\<close>
  "send_batch gateway uuid session batchSize [] w = w"
| "send_batch gateway uuid session batchSize (message # rest) w =
     (case (case msg_contactId message of None \<Rightarrow> None | Some contactId \<Rightarrow> getContact contactId w) of
        None \<Rightarrow> send_batch gateway uuid session batchSize rest w
      | Some contact \<Rightarrow>
          (case sendMessage gateway uuid (session_sessionId session) (contact_phone contact)
                  (msg_message message) w of
             (Sent, w1) \<Rightarrow>
               (let w2 = mark_sent message w1;
                    w3 = (if batchSize > 1 then w2\<lparr>clock := clock w2 + 2000\<rparr> else w2)
                in send_batch gateway uuid session batchSize rest w3)
           | (Failed e, w1) \<Rightarrow>
               send_batch gateway uuid session batchSize rest (mark_failed message e w1)
           | (FailedOther, w1) \<Rightarrow>
               send_batch gateway uuid session batchSize rest
                 (mark_failed message ''Unknown error'' w1)))"

definition checkCampaignCompletion :: "string \<Rightarrow> world \<Rightarrow> world" where
  "checkCampaignCompletion campaignId w =
     (case getCampaign campaignId w of
        None \<Rightarrow> w
      | Some campaign \<Rightarrow>
          (let pendingMessages = getMessageQueue w;
               campaignPending = filter (\<lambda>msg. msg_campaignId msg = Some campaignId
                                           \<and> msg_status msg = ''pending'') pendingMessages
           in if length campaignPending = 0 then
                snd (updateCampaign campaignId
                       (no_campaign_update\<lparr>set_campaign_status := Some ''completed''\<rparr>) w)
              else w))"

definition first_campaign :: "queued_message \<Rightarrow> world \<Rightarrow> campaign option" where
  \<comment> \<open>\<open>firstMessage.campaignId ? await storage.getCampaign(firstMessage.campaignId) : null\<close>\<close>
  "first_campaign firstMessage w =
     (case msg_campaignId firstMessage of
        None \<Rightarrow> None
      | Some campaignId \<Rightarrow> if campaignId = [] then None else getCampaign campaignId w)"

definition rate_limit_of :: "campaign option \<Rightarrow> int" where
  \<comment> \<open>\<open>campaign?.rateLimit || 30\<close>: 30 also for a rate limit that is \<open>null\<close> or 0\<close>
  "rate_limit_of campaign =
     (case campaign of
        None \<Rightarrow> 30
      | Some c \<Rightarrow> (case campaign_rateLimit c of
                    None \<Rightarrow> 30
                  | Some r \<Rightarrow> if r = 0 then 30 else r))"

definition slice_from_0 :: "int \<Rightarrow> 'a list \<Rightarrow> 'a list" where
  \<comment> \<open>\<open>xs.slice(0, e)\<close>: a negative end counts from the end of the array\<close>
  "slice_from_0 e xs =
     (if e < 0 then take (nat (int (length xs) + e)) xs else take (nat e) xs)"

definition process_session ::
  "(nat \<Rightarrow> send_outcome) \<Rightarrow> (nat \<Rightarrow> string) \<Rightarrow> session \<Rightarrow> world \<Rightarrow> world" where
  \<comment> \<open>one round of the \<open>for (const session of sessions)\<close> loop\<close>
  "process_session gateway uuid session w =
     (if session_status session \<noteq> ''connected'' then w
      else (case getPendingMessages (session_id session) w of
              [] \<Rightarrow> w
            | firstMessage # others \<Rightarrow>
                (let pendingMessages = firstMessage # others;
                     campaign = first_campaign firstMessage w;
                     rateLimit = rate_limit_of campaign;
                     batchSize = min rateLimit (int (length pendingMessages));
                     messagesToProcess = slice_from_0 batchSize pendingMessages;
                     w1 = send_batch gateway uuid session batchSize messagesToProcess w
                 in case msg_campaignId firstMessage of
                      None \<Rightarrow> w1
                    | Some campaignId \<Rightarrow>
                        if campaignId = [] then w1 else checkCampaignCompletion campaignId w1)))"

definition processQueuedMessages ::
  "(nat \<Rightarrow> send_outcome) \<Rightarrow> (nat \<Rightarrow> string) \<Rightarrow> world \<Rightarrow> world" where
  \<comment> \<open>one dispatch tick, over the sessions as they are when the tick starts\<close>
  "processQueuedMessages gateway uuid w = fold (process_session gateway uuid) (getSessions w) w"

section \<open>Auto-reply matcher\<close>

definition to_lower_char :: "char \<Rightarrow> char" where
  \<comment> \<open>\<open>toLowerCase\<close> on a code unit below 256: the letters A to Z and the capital
      letters of Latin-1\<close>
  "to_lower_char c =
     (let n = (of_char c :: nat)
      in if (65 \<le> n \<and> n \<le> 90) \<or> (192 \<le> n \<and> n \<le> 222 \<and> n \<noteq> 215) then char_of (n + 32) else c)"

definition toLowerCase :: "string \<Rightarrow> string" where
  "toLowerCase s = map to_lower_char s"

definition some_keyword :: "auto_reply_rule \<Rightarrow> (string \<Rightarrow> bool) \<Rightarrow> js_error + bool" where
  \<comment> \<open>\<open>rule.keywords.some(...)\<close>: a \<open>TypeError\<close> when the rule has no keyword array\<close>
  "some_keyword rule p =
     (case rule_keywords rule of
        None \<Rightarrow> Inl TypeError
      | Some keywords \<Rightarrow> Inr (\<exists>keyword \<in> set keywords. p keyword))"

definition checkAutoReplyTrigger :: "string \<Rightarrow> auto_reply_rule \<Rightarrow> js_error + bool" where
  "checkAutoReplyTrigger messageText rule =
     (let text = toLowerCase messageText
      in if rule_triggerType rule = ''contains'' then
           some_keyword rule (\<lambda>keyword. sublist (toLowerCase keyword) text)
         else if rule_triggerType rule = ''exact'' then
           some_keyword rule (\<lambda>keyword. text = toLowerCase keyword)
         else if rule_triggerType rule = ''starts_with'' then
           some_keyword rule (\<lambda>keyword. prefix (toLowerCase keyword) text)
         else if rule_triggerType rule = ''ends_with'' then
           some_keyword rule (\<lambda>keyword. suffix (toLowerCase keyword) text)
         else if rule_triggerType rule = ''any'' then Inr True
         else Inr False)"

definition sendAutoReply ::
  "(nat \<Rightarrow> send_outcome) \<Rightarrow> (nat \<Rightarrow> string) \<Rightarrow> string \<Rightarrow> string \<Rightarrow> string \<Rightarrow> world \<Rightarrow> world" where
  \<comment> \<open>straight through the socket, not through the queue; a session without a socket
      and a send that throws both leave the store as it is\<close>
  "sendAutoReply gateway uuid sessionId toNumber response w =
     (let outcome = gateway (gateway_calls w);
          w1 = w\<lparr>gateway_calls := Suc (gateway_calls w)\<rparr>
      in case outcome of
           Sent \<Rightarrow> createMessageAnalytic uuid toNumber ''sent'' sessionId
                     (w1\<lparr>outbox := outbox w1 @ [(sessionId, toNumber, response)]\<rparr>)
         | Failed e \<Rightarrow> w1
         | FailedOther \<Rightarrow> w1)"

fun first_reply ::
  "(nat \<Rightarrow> send_outcome) \<Rightarrow> (nat \<Rightarrow> string) \<Rightarrow> string \<Rightarrow> string \<Rightarrow> string
     \<Rightarrow> auto_reply_rule list \<Rightarrow> world \<Rightarrow> js_error + world" where
  \<comment> \<open>the \<open>for (const rule of autoReplyRules)\<close> loop: the first active rule that
      triggers answers, at once or through a timer, and ends the loop\<close>
  "first_reply gateway uuid sessionId fromNumber messageText [] w = Inr w"
| "first_reply gateway uuid sessionId fromNumber messageText (rule # rules) w =
     (if rule_isActive rule \<noteq> Some True then
        first_reply gateway uuid sessionId fromNumber messageText rules w
      else (case checkAutoReplyTrigger messageText rule of
              Inl e \<Rightarrow> Inl e
            | Inr shouldReply \<Rightarrow>
                if shouldReply then
                  (case rule_delay rule of
                     None \<Rightarrow> Inr (sendAutoReply gateway uuid sessionId fromNumber
                                    (rule_response rule) w)
                   | Some delay \<Rightarrow>
                       if delay > 0 then
                         Inr (w\<lparr>reply_timers := reply_timers w @
                                [(clock w + delay * 1000, sessionId, fromNumber, rule_response rule)]\<rparr>)
                       else Inr (sendAutoReply gateway uuid sessionId fromNumber
                                   (rule_response rule) w))
                else first_reply gateway uuid sessionId fromNumber messageText rules w))"

record inbound_message =
  in_fromMe :: bool
  in_remoteJid :: "string option"
  in_conversation :: "string option"
  in_extendedText :: "string option"

definition inbound_text :: "inbound_message \<Rightarrow> string" where
  \<comment> \<open>\<open>message.message?.conversation || message.message?.extendedTextMessage?.text || ''\<close>\<close>
  "inbound_text message =
     (let extended = (case in_extendedText message of None \<Rightarrow> [] | Some t \<Rightarrow> t)
      in case in_conversation message of
           None \<Rightarrow> extended
         | Some t \<Rightarrow> if t = [] then extended else t)"

fun handleIncomingMessages ::
  "(nat \<Rightarrow> send_outcome) \<Rightarrow> (nat \<Rightarrow> string) \<Rightarrow> string \<Rightarrow> inbound_message list \<Rightarrow> world
     \<Rightarrow> js_error option \<times> world" where
  \<comment> \<open>an error thrown while a rule is checked leaves the handler: the messages after it
      are not looked at\<close>
  "handleIncomingMessages gateway uuid sessionId [] w = (None, w)"
| "handleIncomingMessages gateway uuid sessionId (message # messages) w =
     (if in_fromMe message then handleIncomingMessages gateway uuid sessionId messages w
      else (let fromNumber = (case in_remoteJid message of
                                None \<Rightarrow> []
                              | Some jid \<Rightarrow> takeWhile (\<lambda>c. c \<noteq> CHR ''@'') jid);
                messageText = inbound_text message
            in if fromNumber = [] \<or> messageText = [] then
                 handleIncomingMessages gateway uuid sessionId messages w
               else (case first_reply gateway uuid sessionId fromNumber messageText
                            (getAutoReplyRules (Some sessionId) w) w of
                       Inl e \<Rightarrow> (Some e, w)
                     | Inr w1 \<Rightarrow>
                         handleIncomingMessages gateway uuid sessionId messages
                           (createMessageAnalytic uuid fromNumber ''received'' sessionId w1))))"

section \<open>Scheduler\<close>

text \<open>
  A \<open>Date\<close> is its number of milliseconds since the epoch. Its calendar fields are
  computed for a fixed offset from UTC, in minutes: the offset of the server's time zone
  for the getters of \<open>Date\<close>, and 0 for the cron library, which the scheduler runs with
  \<open>timezone: "UTC"\<close>.
\<close>

record date_fields =
  df_year :: int
  df_month :: nat
  df_date :: nat
  df_hours :: nat
  df_minutes :: nat
  df_seconds :: nat
  df_day :: nat

definition civil_from_days :: "int \<Rightarrow> int \<times> nat \<times> nat" where
  \<comment> \<open>year, month (1 to 12) and day of the month of a day counted from 1970-01-01,
      in the Gregorian calendar\<close>
  "civil_from_days days =
     (let z = days + 719468;
          era = z div 146097;
          doe = z - era * 146097;
          yoe = (doe - doe div 1460 + doe div 36524 - doe div 146096) div 365;
          doy = doe - (365 * yoe + yoe div 4 - yoe div 100);
          mp = (5 * doy + 2) div 153;
          d = doy - (153 * mp + 2) div 5 + 1;
          m = (if mp < 10 then mp + 3 else mp - 9);
          y = yoe + era * 400 + (if m \<le> 2 then 1 else 0)
      in (y, nat m, nat d))"

definition fields_at :: "int \<Rightarrow> int \<Rightarrow> date_fields" where
  \<comment> \<open>\<open>getFullYear\<close>, \<open>getMonth\<close> (from 0), \<open>getDate\<close>, \<open>getHours\<close>, \<open>getMinutes\<close>,
      \<open>getSeconds\<close> and \<open>getDay\<close> of a time, at an offset from UTC\<close>
  "fields_at offset t =
     (let s = t div 1000 + offset * 60;
          days = s div 86400;
          sod = s mod 86400;
          (y, m, d) = civil_from_days days
      in \<lparr> df_year = y, df_month = m - 1, df_date = d,
           df_hours = nat (sod div 3600), df_minutes = nat ((sod mod 3600) div 60),
           df_seconds = nat (sod mod 60), df_day = nat ((days + 4) mod 7) \<rparr>)"

definition dateToCronExpression :: "date_fields \<Rightarrow> cron_field list" where
  \<comment> \<open>the text \<open>`${minute} ${hour} ${day} ${month} *`\<close>, field by field; the year that the
      function reads is not used\<close>
  "dateToCronExpression date =
     [At (df_minutes date), At (df_hours date), At (df_date date), At (df_month date + 1), Every]"

definition field_matches :: "cron_field \<Rightarrow> nat \<Rightarrow> bool" where
  "field_matches f v = (case f of Every \<Rightarrow> True | At n \<Rightarrow> n = v)"

definition cron_matches :: "cron_field list \<Rightarrow> date_fields \<Rightarrow> bool" where
  \<comment> \<open>the cron library: an expression of five fields (minute, hour, day of the month,
      month, day of the week) is due at second 0 of every minute whose fields match,
      year after year\<close>
  "cron_matches expression d =
     (case expression of
        [minute, hour, dayOfMonth, month, dayOfWeek] \<Rightarrow>
          df_seconds d = 0 \<and> field_matches minute (df_minutes d) \<and> field_matches hour (df_hours d)
          \<and> field_matches dayOfMonth (df_date d) \<and> field_matches month (df_month d + 1)
          \<and> field_matches dayOfWeek (df_day d)
      | _ \<Rightarrow> False)"

definition scheduleCampaign ::
  "(string \<Rightarrow> string \<Rightarrow> string \<Rightarrow> js_error + string) \<Rightarrow> (nat \<Rightarrow> nat \<Rightarrow> nat) \<Rightarrow> (nat \<Rightarrow> string) \<Rightarrow> int
     \<Rightarrow> campaign \<Rightarrow> world \<Rightarrow> world option" where
  \<comment> \<open>\<open>tz\<close> is the offset of the server's time zone; the new task is started and put in
      \<open>scheduledJobs\<close> under the campaign's identifier\<close>
  "scheduleCampaign engine rnd uuid tz campaign w =
     (case campaign_scheduledAt campaign of
        None \<Rightarrow> processCampaign engine rnd uuid campaign w
      | Some scheduleTime \<Rightarrow>
          if scheduleTime \<le> clock w then processCampaign engine rnd uuid campaign w
          else (let cronExpression = dateToCronExpression (fields_at tz scheduleTime);
                    job = length (cron_tasks w);
                    w1 = w\<lparr>cron_tasks := cron_tasks w @
                             [\<lparr> task_expression = cronExpression, task_campaign = campaign,
                                task_running = True \<rparr>],
                           scheduledJobs := AList.update (campaign_id campaign) job (scheduledJobs w)\<rparr>
                in Some (snd (updateCampaign (campaign_id campaign)
                          (no_campaign_update\<lparr>set_campaign_status := Some ''scheduled''\<rparr>) w1))))"

fun run_due_tasks ::
  "(string \<Rightarrow> string \<Rightarrow> string \<Rightarrow> js_error + string) \<Rightarrow> (nat \<Rightarrow> nat \<Rightarrow> nat) \<Rightarrow> (nat \<Rightarrow> string)
     \<Rightarrow> date_fields \<Rightarrow> cron_task list \<Rightarrow> world \<Rightarrow> world option" where
  \<comment> \<open>the callbacks of the tasks that are running and due: the expansion of the
      campaign, then \<open>this.scheduledJobs.delete(campaign.id)\<close>; the task is not stopped\<close>
  "run_due_tasks engine rnd uuid d [] w = Some w"
| "run_due_tasks engine rnd uuid d (task # tasks) w =
     (if task_running task \<and> cron_matches (task_expression task) d then
        (case processCampaign engine rnd uuid (task_campaign task) w of
           None \<Rightarrow> None
         | Some w1 \<Rightarrow>
             run_due_tasks engine rnd uuid d tasks
               (w1\<lparr>scheduledJobs := AList.delete (campaign_id (task_campaign task)) (scheduledJobs w1)\<rparr>))
      else run_due_tasks engine rnd uuid d tasks w)"

definition cron_second ::
  "(string \<Rightarrow> string \<Rightarrow> string \<Rightarrow> js_error + string) \<Rightarrow> (nat \<Rightarrow> nat \<Rightarrow> nat) \<Rightarrow> (nat \<Rightarrow> string) \<Rightarrow> int
     \<Rightarrow> world \<Rightarrow> world option" where
  \<comment> \<open>the clock reaches the time \<open>t\<close>, a whole second, and the cron library looks at its
      tasks\<close>
  "cron_second engine rnd uuid t w =
     run_due_tasks engine rnd uuid (fields_at 0 t) (cron_tasks w) (w\<lparr>clock := t\<rparr>)"

definition cancelScheduledCampaign :: "string \<Rightarrow> world \<Rightarrow> world" where
  \<comment> \<open>\<open>job.stop()\<close> and \<open>scheduledJobs.delete\<close>, when the map has a job for the campaign\<close>
  "cancelScheduledCampaign campaignId w =
     (case map_of (scheduledJobs w) campaignId of
        None \<Rightarrow> w
      | Some job \<Rightarrow>
          w\<lparr>cron_tasks := map (\<lambda>(i, task). if i = job then task\<lparr>task_running := False\<rparr> else task)
                            (enumerate 0 (cron_tasks w)),
            scheduledJobs := AList.delete campaignId (scheduledJobs w)\<rparr>)"

section \<open>Example data\<close>

text \<open>Small stores on which the statements below are run.\<close>

definition empty_world :: world where
  "empty_world = \<lparr> contacts = [], sessions = [], campaigns = [], autoReplyRules = [],
     messageQueue = [], messageAnalytics = [], uuid_count = 0, clock = 0, gateway_calls = 0,
     outbox = [], reply_timers = [], cron_tasks = [], scheduledJobs = [] \<rparr>"

definition example_campaign :: campaign where
  "example_campaign = \<lparr> campaign_id = ''c1'', campaign_name = ''Promo'',
     campaign_message = ''Hi {name}'', campaign_contactGroups = None, campaign_mediaUrl = None,
     campaign_mediaType = None, campaign_status = ''sending'', campaign_scheduledAt = None,
     campaign_rateLimit = Some 30, campaign_totalRecipients = Some 0,
     campaign_messagesSent = Some 0, campaign_messagesDelivered = Some 0,
     campaign_messagesResponded = Some 0, campaign_sessionId = Some ''s1'',
     campaign_createdAt = Some 0 \<rparr>"

definition example_session :: session where
  "example_session = \<lparr> session_id = ''s1'', session_sessionId = ''main'',
     session_phone = None, session_status = ''connected'', session_qrCode = None,
     session_lastSeen = None, session_createdAt = Some 0 \<rparr>"

definition example_contact :: contact where
  "example_contact = \<lparr> contact_id = ''k1'', contact_name = ''Ann'', contact_phone = ''111'',
     contact_email = None, contact_groups = None, contact_metadata = None,
     contact_createdAt = Some 0 \<rparr>"

definition example_message :: queued_message where
  "example_message = \<lparr> msg_id = ''m1'', msg_campaignId = Some ''c1'', msg_contactId = Some ''k1'',
     msg_message = ''Hi Ann'', msg_mediaUrl = None, msg_mediaType = None,
     msg_status = ''pending'', msg_scheduledAt = Some 0, msg_sentAt = None,
     msg_deliveredAt = None, msg_errorMessage = None, msg_sessionId = Some ''s1'',
     msg_createdAt = Some 0 \<rparr>"

definition blank_contact :: contact where
  "blank_contact = \<lparr> contact_id = ''k0'', contact_name = [], contact_phone = [],
     contact_email = None, contact_groups = None, contact_metadata = None,
     contact_createdAt = None \<rparr>"

definition rome_contact :: contact where
  "rome_contact = blank_contact\<lparr>contact_name := ''Ann'', contact_metadata := Some [(''city'', ''Rome'')]\<rparr>"

definition base_world :: world where
  "base_world = empty_world\<lparr>sessions := [(''s1'', example_session)],
     contacts := [(''k1'', example_contact)]\<rparr>"

definition paused_world :: world where
  "paused_world = base_world\<lparr>
     campaigns := [(''c1'', example_campaign\<lparr>campaign_status := ''paused''\<rparr>)],
     messageQueue := [(''m1'', example_message)]\<rparr>"

definition mixed_world :: world where
  "mixed_world = base_world\<lparr>
     campaigns := [(''c1'', example_campaign),
                   (''c2'', example_campaign\<lparr>campaign_id := ''c2'', campaign_rateLimit := Some 1\<rparr>)],
     messageQueue := [(''m1'', example_message),
                      (''m2'', example_message\<lparr>msg_id := ''m2'', msg_campaignId := Some ''c2''\<rparr>),
                      (''m3'', example_message\<lparr>msg_id := ''m3'', msg_campaignId := Some ''c2''\<rparr>)]\<rparr>"

definition zero_limit_world :: world where
  "zero_limit_world = base_world\<lparr>
     campaigns := [(''c1'', example_campaign\<lparr>campaign_rateLimit := Some 0\<rparr>)],
     messageQueue := [(''m1'', example_message)]\<rparr>"

definition limited_world :: world where
  "limited_world = base_world\<lparr>
     campaigns := [(''c1'', example_campaign\<lparr>campaign_rateLimit := Some 2\<rparr>)],
     messageQueue := [(''m1'', example_message),
                      (''m2'', example_message\<lparr>msg_id := ''m2''\<rparr>),
                      (''m3'', example_message\<lparr>msg_id := ''m3''\<rparr>)]\<rparr>"

definition welcome_rule :: auto_reply_rule where
  "welcome_rule = \<lparr> rule_id = ''r1'', rule_name = ''Welcome'', rule_keywords = Some [],
     rule_triggerType = ''first_message'', rule_response = ''Welcome!'', rule_delay = Some 0,
     rule_isActive = Some True, rule_businessHoursOnly = Some False,
     rule_businessHoursStart = Some ''09:00'', rule_businessHoursEnd = Some ''18:00'',
     rule_sessionId = Some ''main'', rule_createdAt = Some 0 \<rparr>"

definition welcome_world :: world where
  "welcome_world = empty_world\<lparr>autoReplyRules := [(''r1'', welcome_rule)]\<rparr>"

definition first_hello :: inbound_message where
  "first_hello = \<lparr> in_fromMe = False, in_remoteJid = Some ''555@s.whatsapp.net'',
     in_conversation = Some ''hello'', in_extendedText = None \<rparr>"

definition example_uuid :: "nat \<Rightarrow> string" where
  "example_uuid n = replicate (Suc n) CHR ''u''"

definition partial_world :: world where
  "partial_world = empty_world\<lparr>
     contacts := [(''k1'', example_contact),
                  (''k2'', example_contact\<lparr>contact_id := ''k2'', contact_name := ''Bob'',
                             contact_metadata := Some [(''a('', ''v'')]\<rparr>)],
     campaigns := [(''c1'', example_campaign\<lparr>campaign_status := ''draft''\<rparr>)]\<rparr>"

definition expand_world :: world where
  "expand_world = empty_world\<lparr>
     contacts := [(''k1'', example_contact),
                  (''k2'', example_contact\<lparr>contact_id := ''k2'', contact_name := ''Bob''\<rparr>)],
     campaigns := [(''c1'', example_campaign\<lparr>campaign_status := ''draft''\<rparr>)]\<rparr>"

definition sched_campaign :: campaign where
  \<comment> \<open>scheduled for 2027-01-15 10:30:00 UTC\<close>
  "sched_campaign = example_campaign\<lparr>campaign_status := ''draft'',
     campaign_scheduledAt := Some 1800009000000\<rparr>"

definition sched_world :: world where
  \<comment> \<open>the clock at 2027-01-01 00:00:00 UTC\<close>
  "sched_world = empty_world\<lparr>contacts := [(''k1'', example_contact)],
     campaigns := [(''c1'', sched_campaign)], clock := 1798761600000\<rparr>"

definition after_schedule :: "world option" where
  "after_schedule =
     scheduleCampaign (\<lambda>key repl message. Inr message) (\<lambda>j i. 0) example_uuid 0
       sched_campaign sched_world"

definition after_first_fire :: "world option" where
  \<comment> \<open>the clock reaches 2027-01-15 10:30:00 UTC\<close>
  "after_first_fire =
     Option.bind after_schedule
       (cron_second (\<lambda>key repl message. Inr message) (\<lambda>j i. 0) example_uuid 1800009000000)"

definition after_second_fire :: "world option" where
  \<comment> \<open>the clock reaches 2028-01-15 10:30:00 UTC, after a call to cancel the campaign\<close>
  "after_second_fire =
     Option.bind (map_option (cancelScheduledCampaign ''c1'') after_first_fire)
       (cron_second (\<lambda>key repl message. Inr message) (\<lambda>j i. 0) example_uuid 1831545000000)"

section \<open>Specification of spintax validation\<close>

text \<open>
  What the specification asks of a valid text, in its own words: the braces balance,
  every group in braces contains a pipe, and no option of a group is empty once trimmed.
  A group is a stretch of text in braces with no brace inside, since groups do not nest.
\<close>

inductive balanced :: "string \<Rightarrow> bool" where
  \<comment> \<open>the texts in which every brace has its partner\<close>
  bal_empty: "balanced []"
| bal_other: "\<not> is_brace c \<Longrightarrow> balanced w \<Longrightarrow> balanced (c # w)"
| bal_group: "balanced u \<Longrightarrow> balanced v \<Longrightarrow> balanced (CHR ''{'' # u @ CHR ''}'' # v)"

inductive opened :: "nat \<Rightarrow> string \<Rightarrow> bool" where
  \<comment> \<open>a balanced text in which \<open>n\<close> more opening braces still wait for their partner\<close>
  op_zero: "balanced w \<Longrightarrow> opened 0 w"
| op_suc: "opened n p \<Longrightarrow> balanced w \<Longrightarrow> opened (Suc n) (p @ CHR ''{'' # w)"

definition group_ok :: "string \<Rightarrow> bool" where
  "group_ok content \<longleftrightarrow>
     CHR ''|'' \<in> set content \<and> (\<forall>opt \<in> set (split_on CHR ''|'' content). trim opt \<noteq> [])"

definition is_group :: "string \<Rightarrow> string \<Rightarrow> bool" where
  "is_group g text \<longleftrightarrow>
     (\<exists>pre post. text = pre @ CHR ''{'' # g @ CHR ''}'' # post) \<and> (\<forall>c \<in> set g. \<not> is_brace c)"

definition opening_braces :: "string \<Rightarrow> nat" where
  \<comment> \<open>what a round of rendering makes smaller, when it replaces a marker by plain text\<close>
  "opening_braces s = length (filter (\<lambda>c. c = CHR ''{'') s)"

section \<open>Specification of personalization\<close>

text \<open>
  The placeholders that a contact can fill: the three fixed ones and one for each key of
  its metadata. The keys are plain when none has a character that is syntax in a
  regular expression.
\<close>

definition metadata_keys :: "contact \<Rightarrow> string list" where
  "metadata_keys contact = (case contact_metadata contact of None \<Rightarrow> [] | Some md \<Rightarrow> map fst md)"

definition placeholders :: "contact \<Rightarrow> string list" where
  "placeholders contact =
     ''{name}'' # ''{phone}'' # ''{email}'' # map (\<lambda>key. CHR ''{'' # key @ ''}'') (metadata_keys contact)"

definition plain_keys :: "contact \<Rightarrow> bool" where
  "plain_keys contact \<longleftrightarrow> (\<forall>key \<in> set (metadata_keys contact). \<forall>c \<in> set key. \<not> regex_syntax c)"

text \<open>
  A template made of plain text and placeholders, and what personalization is to make
  of each piece for a contact: \<open>{name}\<close> becomes the name, or \<open>there\<close> when the name is
  absent; \<open>{phone}\<close> and \<open>{email}\<close> become their value, or the empty text when absent;
  \<open>{key}\<close> becomes the metadata value of a key that the metadata has; any other
  placeholder stays. The pieces are well formed when no brace is inside a piece, and a
  contact is clean when none of its values has a brace or a dollar sign. \<open>put\<close> and
  \<open>fill_md\<close> are single steps of \<open>fill\<close>: one key, and the keys of the metadata.
\<close>

datatype piece = Plain string | Placeholder string

fun render_piece :: "piece \<Rightarrow> string" where
  "render_piece (Plain s) = s"
| "render_piece (Placeholder key) = CHR ''{'' # key @ ''}''"

definition render :: "piece list \<Rightarrow> string" where
  "render pieces = concat (map render_piece pieces)"

fun brace_free_piece :: "piece \<Rightarrow> bool" where
  "brace_free_piece (Plain s) \<longleftrightarrow> (\<forall>c \<in> set s. \<not> is_brace c)"
| "brace_free_piece (Placeholder key) \<longleftrightarrow> (\<forall>c \<in> set key. \<not> is_brace c)"

definition well_formed :: "piece list \<Rightarrow> bool" where
  "well_formed pieces \<longleftrightarrow> (\<forall>p \<in> set pieces. brace_free_piece p)"

definition clean :: "string \<Rightarrow> bool" where
  "clean v \<longleftrightarrow> (\<forall>c \<in> set v. \<not> is_brace c \<and> c \<noteq> CHR ''$'')"

definition clean_contact :: "contact \<Rightarrow> bool" where
  "clean_contact contact \<longleftrightarrow>
     clean (contact_name contact) \<and> clean (contact_phone contact) \<and>
     (case contact_email contact of None \<Rightarrow> True | Some e \<Rightarrow> clean e) \<and>
     (case contact_metadata contact of
        None \<Rightarrow> True
      | Some md \<Rightarrow> \<forall>v \<in> set (map snd md). clean v)"

fun fill :: "contact \<Rightarrow> piece \<Rightarrow> piece" where
  "fill contact (Plain s) = Plain s"
| "fill contact (Placeholder key) =
     (if key = ''name'' then
        Plain (if contact_name contact = [] then ''there'' else contact_name contact)
      else if key = ''phone'' then Plain (contact_phone contact)
      else if key = ''email'' then
        Plain (case contact_email contact of None \<Rightarrow> [] | Some e \<Rightarrow> e)
      else (case contact_metadata contact of
              None \<Rightarrow> Placeholder key
            | Some md \<Rightarrow>
                (case map_of md key of
                   None \<Rightarrow> Placeholder key
                 | Some v \<Rightarrow> Plain v)))"

fun put :: "string \<Rightarrow> string \<Rightarrow> piece \<Rightarrow> piece" where
  "put key v (Plain s) = Plain s"
| "put key v (Placeholder k) = (if k = key then Plain v else Placeholder k)"

fun fill_md :: "(string \<times> string) list \<Rightarrow> piece \<Rightarrow> piece" where
  "fill_md md (Plain s) = Plain s"
| "fill_md md (Placeholder k) = (case map_of md k of None \<Rightarrow> Placeholder k | Some v \<Rightarrow> Plain v)"

section \<open>Specification of the dispatch loop\<close>

text \<open>
  The rate limit that the loop applies to a session is the one it reads through the first
  pending entry of that session. The claim about rate limits speaks of the limit of each
  entry's own campaign, \<open>claimed_limit\<close>, and of the entries of a session that a tick
  turned from \<open>pending\<close> to \<open>sent\<close>.
\<close>

definition session_rate_limit :: "session \<Rightarrow> world \<Rightarrow> int" where
  "session_rate_limit session w =
     (case getPendingMessages (session_id session) w of
        [] \<Rightarrow> 30
      | firstMessage # others \<Rightarrow> rate_limit_of (first_campaign firstMessage w))"

definition claimed_limit :: "world \<Rightarrow> queued_message \<Rightarrow> int" where
  "claimed_limit w entry =
     (case msg_campaignId entry of
        None \<Rightarrow> 30
      | Some campaignId \<Rightarrow>
          (case getCampaign campaignId w of
             None \<Rightarrow> 30
           | Some c \<Rightarrow> (case campaign_rateLimit c of None \<Rightarrow> 30 | Some r \<Rightarrow> r)))"

definition sent_this_tick :: "world \<Rightarrow> world \<Rightarrow> string \<Rightarrow> queued_message list" where
  "sent_this_tick w w' sessionId =
     filter (\<lambda>entry. msg_sessionId entry = Some sessionId \<and> msg_status entry = ''sent'' \<and>
               (case map_of (messageQueue w) (msg_id entry) of
                  None \<Rightarrow> False
                | Some before \<Rightarrow> msg_status before = ''pending''))
       (map snd (messageQueue w'))"

definition rate_limit_claim :: "world \<Rightarrow> world \<Rightarrow> string \<Rightarrow> bool" where
  "rate_limit_claim w w' sessionId \<longleftrightarrow>
     (\<forall>entry \<in> set (sent_this_tick w w' sessionId).
        int (length (sent_this_tick w w' sessionId)) \<le> claimed_limit w entry)"

section \<open>Specification of campaign expansion\<close>

text \<open>
  The recipients of a campaign are all contacts when its group filter is empty, else the
  contacts whose groups meet the filter. The entries of a campaign are the queue entries
  that name it. Identifiers are fresh when \<open>randomUUID\<close> never draws one twice and
  none that it has yet to draw is a key of the queue. \<open>expansion_atomic\<close> is the
  outcome that the claim of atomicity allows for a campaign with \<open>n\<close> recipients and
  no entry before.
\<close>

definition groups_of :: "string list option \<Rightarrow> string set" where
  "groups_of gs = (case gs of None \<Rightarrow> {} | Some names \<Rightarrow> set names)"

definition recipients :: "campaign \<Rightarrow> world \<Rightarrow> contact list" where
  "recipients campaign w =
     (if groups_of (campaign_contactGroups campaign) = {} then map snd (contacts w)
      else filter (\<lambda>contact. groups_of (contact_groups contact)
                               \<inter> groups_of (campaign_contactGroups campaign) \<noteq> {})
             (map snd (contacts w)))"

definition entries_of :: "string \<Rightarrow> world \<Rightarrow> queued_message list" where
  "entries_of campaignId w =
     filter (\<lambda>entry. msg_campaignId entry = Some campaignId) (map snd (messageQueue w))"

definition fresh_ids :: "(nat \<Rightarrow> string) \<Rightarrow> world \<Rightarrow> bool" where
  "fresh_ids uuid w \<longleftrightarrow>
     inj uuid \<and> (\<forall>i \<ge> uuid_count w. uuid i \<notin> fst ` set (messageQueue w))"

definition expansion_atomic :: "world \<Rightarrow> string \<Rightarrow> nat \<Rightarrow> bool" where
  "expansion_atomic w' campaignId n \<longleftrightarrow>
     (map_option campaign_status (getCampaign campaignId w') = Some ''sending'' \<and>
      map_option campaign_totalRecipients (getCampaign campaignId w') = Some (Some (int n)) \<and>
      length (entries_of campaignId w') = n)
     \<or> (map_option campaign_status (getCampaign campaignId w') = Some ''failed'' \<and>
         entries_of campaignId w' = [])"

section \<open>Spintax validation is the specified check\<close>

lemma balanced_append: "balanced u \<Longrightarrow> balanced v \<Longrightarrow> balanced (u @ v)"
  by (induction rule: balanced.induct) (auto intro: balanced.intros)

lemma brace_scan_balanced_prefix:
  "balanced u \<Longrightarrow> 0 \<le> n \<Longrightarrow> brace_scan n (u @ t) = brace_scan n t"
proof (induction arbitrary: n t rule: balanced.induct)
  case bal_empty
  then show ?case by simp
next
  case (bal_other c w)
  then show ?case by (simp add: is_brace_def)
next
  case (bal_group u v)
  have "brace_scan n ((CHR ''{'' # u @ CHR ''}'' # v) @ t) = brace_scan (n + 1) (u @ (CHR ''}'' # v @ t))"
    by simp
  also have "\<dots> = brace_scan (n + 1) (CHR ''}'' # v @ t)"
    using bal_group.IH(1) [of "n + 1"] bal_group.prems by simp
  also have "\<dots> = brace_scan n (v @ t)"
    using bal_group.prems by simp
  also have "\<dots> = brace_scan n t"
    using bal_group.IH(2) bal_group.prems by simp
  finally show ?case .
qed

lemma balanced_brace_scan: "balanced s \<Longrightarrow> brace_scan 0 s = (0, False)"
  using brace_scan_balanced_prefix [of s 0 "[]"] by simp

lemma balanced_snoc: "balanced w \<Longrightarrow> \<not> is_brace c \<Longrightarrow> balanced (w @ [c])"
  by (rule balanced_append) (auto intro: balanced.intros)

lemma opened_other: "opened n p \<Longrightarrow> \<not> is_brace c \<Longrightarrow> opened n (p @ [c])"
proof (induction rule: opened.induct)
  case (op_zero w)
  then show ?case by (simp add: balanced_snoc opened.op_zero)
next
  case (op_suc n p w)
  have "opened (Suc n) (p @ CHR ''{'' # (w @ [c]))"
    using op_suc.hyps op_suc.prems by (intro opened.op_suc balanced_snoc)
  then show ?case by simp
qed

lemma opened_open: "opened n p \<Longrightarrow> opened (Suc n) (p @ [CHR ''{''])"
  using opened.op_suc [of n p "[]"] by (simp add: balanced.bal_empty)

lemma opened_close: "opened (Suc n) p \<Longrightarrow> opened n (p @ [CHR ''}''])"
proof (induction "Suc n" p arbitrary: n rule: opened.induct)
  case (op_suc n p w)
  have g: "balanced (CHR ''{'' # w @ CHR ''}'' # [])"
    using op_suc.hyps(3) by (intro balanced.bal_group balanced.bal_empty)
  from op_suc.hyps(1) show ?case
  proof (cases rule: opened.cases)
    case (op_zero)
    then have "balanced (p @ CHR ''{'' # w @ [CHR ''}''])"
      using g balanced_append by blast
    with op_zero show ?thesis by (simp add: opened.op_zero)
  next
    case (op_suc m q v)
    have "balanced (v @ CHR ''{'' # w @ [CHR ''}''])"
      using g op_suc(4) balanced_append by blast
    then have "opened (Suc m) (q @ CHR ''{'' # (v @ CHR ''{'' # w @ [CHR ''}'']))"
      using op_suc(3) by (intro opened.op_suc)
    with op_suc show ?thesis by simp
  qed
qed

lemma brace_scan_opened:
  "brace_scan (int n) s = (0, False) \<Longrightarrow> opened n p \<Longrightarrow> balanced (p @ s)"
proof (induction s arbitrary: n p)
  case Nil
  then have "n = 0" by simp
  with Nil show ?case by (auto elim: opened.cases)
next
  case (Cons c s)
  show ?case
  proof (cases "c = CHR ''{''")
    case True
    with Cons.prems have "brace_scan (int (Suc n)) s = (0, False)" by (simp add: add.commute)
    from Cons.IH [OF this opened_open [OF Cons.prems(2)]] True show ?thesis by simp
  next
    case False
    show ?thesis
    proof (cases "c = CHR ''}''")
      case True
      with Cons.prems(1) obtain m where m: "n = Suc m" "brace_scan (int m) s = (0, False)"
        by (cases n) (auto split: if_splits)
      from Cons.IH [OF m(2) opened_close] Cons.prems(2) m(1) True show ?thesis by simp
    next
      case c: False
      with False Cons.prems(1) have "brace_scan (int n) s = (0, False)" by simp
      from Cons.IH [OF this opened_other [OF Cons.prems(2)], of c] False c show ?thesis
        by (simp add: is_brace_def)
    qed
  qed
qed

lemma brace_scan_balanced: "brace_scan 0 s = (0, False) \<Longrightarrow> balanced s"
  using brace_scan_opened [of 0 s "[]"] by (simp add: opened.op_zero balanced.bal_empty)

lemma brace_scan_nonneg: "0 \<le> n \<Longrightarrow> brace_scan n s = (k, False) \<Longrightarrow> 0 \<le> k"
  by (induction n s rule: brace_scan.induct) (auto split: if_splits)

lemma brace_scan_closing: "brace_scan n s = (k, True) \<Longrightarrow> k < 0"
  by (induction n s rule: brace_scan.induct) (auto split: if_splits)

lemma match_group_here_iff:
  "match_group_here s = Some (g, rest) \<longleftrightarrow>
     s = CHR ''{'' # g @ CHR ''}'' # rest \<and> (\<forall>c \<in> set g. \<not> is_brace c)"
proof
  assume m: "match_group_here s = Some (g, rest)"
  then obtain t where s: "s = CHR ''{'' # t"
    by (auto simp: match_group_here_def split: list.splits if_splits)
  from m s have d: "dropWhile (\<lambda>x. \<not> is_brace x) t = CHR ''}'' # rest"
    and g: "g = takeWhile (\<lambda>x. \<not> is_brace x) t"
    by (auto simp: match_group_here_def split: list.splits if_splits)
  have "t = takeWhile (\<lambda>x. \<not> is_brace x) t @ dropWhile (\<lambda>x. \<not> is_brace x) t"
    by simp
  with d g have "t = g @ CHR ''}'' # rest" by simp
  moreover from g have "\<forall>c \<in> set g. \<not> is_brace c"
    by (auto dest: set_takeWhileD)
  ultimately show "s = CHR ''{'' # g @ CHR ''}'' # rest \<and> (\<forall>c \<in> set g. \<not> is_brace c)"
    using s by simp
next
  assume a: "s = CHR ''{'' # g @ CHR ''}'' # rest \<and> (\<forall>c \<in> set g. \<not> is_brace c)"
  then have "takeWhile (\<lambda>x. \<not> is_brace x) (g @ CHR ''}'' # rest) = g"
    and "dropWhile (\<lambda>x. \<not> is_brace x) (g @ CHR ''}'' # rest) = CHR ''}'' # rest"
    by (simp_all add: takeWhile_append2 dropWhile_append2 is_brace_def)
  with a show "match_group_here s = Some (g, rest)"
    by (simp add: match_group_here_def)
qed

lemma all_groups_sound:
  "g \<in> set (all_groups s) \<Longrightarrow>
     \<exists>pre post. s = pre @ CHR ''{'' # g @ CHR ''}'' # post \<and> (\<forall>c \<in> set g. \<not> is_brace c)"
proof (induction s arbitrary: g rule: all_groups.induct)
  case 1
  then show ?case by simp
next
  case (2 c t)
  show ?case
  proof (cases "match_group_here (c # t)")
    case None
    with 2 obtain pre post where "t = pre @ CHR ''{'' # g @ CHR ''}'' # post \<and> (\<forall>c \<in> set g. \<not> is_brace c)"
      by fastforce
    then have "c # t = (c # pre) @ CHR ''{'' # g @ CHR ''}'' # post \<and> (\<forall>c \<in> set g. \<not> is_brace c)"
      by simp
    then show ?thesis by blast
  next
    case (Some a)
    obtain content rest where a: "a = (content, rest)" by (cases a)
    with Some have m: "c # t = CHR ''{'' # content @ CHR ''}'' # rest" "\<forall>c \<in> set content. \<not> is_brace c"
      by (simp_all add: match_group_here_iff)
    from 2(3) Some a have "g = content \<or> g \<in> set (all_groups rest)" by simp
    then show ?thesis
    proof
      assume "g = content"
      with m have "c # t = [] @ CHR ''{'' # g @ CHR ''}'' # rest \<and> (\<forall>c \<in> set g. \<not> is_brace c)"
        by simp
      then show ?thesis by blast
    next
      assume "g \<in> set (all_groups rest)"
      from 2(2) [OF Some a [symmetric] this]
      obtain pre post where "rest = pre @ CHR ''{'' # g @ CHR ''}'' # post \<and> (\<forall>c \<in> set g. \<not> is_brace c)"
        by blast
      with m have "c # t = (CHR ''{'' # content @ CHR ''}'' # pre) @ CHR ''{'' # g @ CHR ''}'' # post
          \<and> (\<forall>c \<in> set g. \<not> is_brace c)"
        by simp
      then show ?thesis by blast
    qed
  qed
qed

lemma first_brace_unique:
  assumes "u @ a # x = v @ b # y" "\<forall>c \<in> set u. \<not> is_brace c" "\<forall>c \<in> set v. \<not> is_brace c"
    "is_brace a" "is_brace b"
  shows "u = v \<and> a = b \<and> x = y"
proof -
  have l: "takeWhile (\<lambda>c. \<not> is_brace c) (u @ a # x) = u"
    "dropWhile (\<lambda>c. \<not> is_brace c) (u @ a # x) = a # x"
    using assms(2,4) by (simp_all add: takeWhile_append2 dropWhile_append2)
  have r: "takeWhile (\<lambda>c. \<not> is_brace c) (v @ b # y) = v"
    "dropWhile (\<lambda>c. \<not> is_brace c) (v @ b # y) = b # y"
    using assms(3,5) by (simp_all add: takeWhile_append2 dropWhile_append2)
  from l(1) r(1) assms(1) have "u = v" by simp
  moreover from l(2) r(2) assms(1) have "a # x = b # y" by simp
  ultimately show ?thesis by simp
qed

lemma all_groups_complete:
  "s = pre @ CHR ''{'' # g @ CHR ''}'' # post \<Longrightarrow> \<forall>c \<in> set g. \<not> is_brace c \<Longrightarrow> g \<in> set (all_groups s)"
proof (induction s arbitrary: pre rule: all_groups.induct)
  case 1
  then show ?case by simp
next
  case (2 c t)
  show ?case
  proof (cases "match_group_here (c # t)")
    case None
    have "pre \<noteq> []"
    proof
      assume "pre = []"
      with 2(3,4) have "match_group_here (c # t) = Some (g, post)"
        by (simp add: match_group_here_iff)
      with None show False by simp
    qed
    then obtain pre' where "pre = c # pre'" "t = pre' @ CHR ''{'' # g @ CHR ''}'' # post"
      using 2(3) by (cases pre) auto
    from 2(1) [OF None this(2) 2(4)] None show ?thesis by simp
  next
    case (Some a)
    obtain content rest where a: "a = (content, rest)" by (cases a)
    with Some have m: "c # t = CHR ''{'' # content @ CHR ''}'' # rest" "\<forall>c \<in> set content. \<not> is_brace c"
      by (simp_all add: match_group_here_iff)
    show ?thesis
    proof (cases pre)
      case Nil
      with 2(3) m have "content @ CHR ''}'' # rest = g @ CHR ''}'' # post" by simp
      from first_brace_unique [OF this m(2) 2(4)] have "content = g" by (simp add: is_brace_def)
      with Some a show ?thesis by simp
    next
      case (Cons p pre')
      with 2(3) m have e: "content @ CHR ''}'' # rest = pre' @ CHR ''{'' # g @ CHR ''}'' # post" by simp
      define u where "u = takeWhile (\<lambda>c. \<not> is_brace c) pre'"
      define w where "w = dropWhile (\<lambda>c. \<not> is_brace c) pre'"
      have pre': "pre' = u @ w" by (simp add: u_def w_def)
      have u: "\<forall>c \<in> set u. \<not> is_brace c" by (auto simp: u_def dest: set_takeWhileD)
      show ?thesis
      proof (cases w)
        case Nil
        with e pre' have "content @ CHR ''}'' # rest = u @ CHR ''{'' # g @ CHR ''}'' # post" by simp
        from first_brace_unique [OF this m(2) u] show ?thesis by (simp add: is_brace_def)
      next
        case (Cons b w')
        have "is_brace b" using Cons hd_dropWhile [of "\<lambda>c. \<not> is_brace c" pre'] by (simp add: w_def)
        from e pre' Cons have "content @ CHR ''}'' # rest = u @ b # (w' @ CHR ''{'' # g @ CHR ''}'' # post)"
          by simp
        from first_brace_unique [OF this m(2) u _ \<open>is_brace b\<close>]
        have "rest = w' @ CHR ''{'' # g @ CHR ''}'' # post" by (simp add: is_brace_def)
        from 2(2) [OF Some a [symmetric] this 2(4)] Some a show ?thesis by simp
      qed
    qed
  qed
qed

lemma set_all_groups:
  "set (all_groups s) =
     {g. \<exists>pre post. s = pre @ CHR ''{'' # g @ CHR ''}'' # post \<and> (\<forall>c \<in> set g. \<not> is_brace c)}"
  using all_groups_sound all_groups_complete by blast

lemma isValid_iff:
  "isValid (validateSpintax text) \<longleftrightarrow>
     brace_scan 0 text = (0, False) \<and> (\<forall>g \<in> set (all_groups text). group_ok g)"
proof -
  obtain k b where kb: "brace_scan 0 text = (k, b)" by (cases "brace_scan 0 text")
  have k: "\<not> b \<Longrightarrow> 0 \<le> k" using brace_scan_nonneg [of 0 _ k] kb by simp
  have "isValid (validateSpintax text) \<longleftrightarrow>
      \<not> b \<and> \<not> 0 < k \<and> (\<forall>g \<in> set (all_groups text). group_errors g = [])"
    using kb by (simp add: validateSpintax_def)
  moreover have "\<And>g. group_errors g = [] \<longleftrightarrow> group_ok g"
    by (simp add: group_errors_def group_ok_def)
  ultimately show ?thesis using kb k by auto
qed

text \<open>
  Claim C9. Spintax validation reports a text as invalid exactly for the specified
  malformations: \<open>{a|b|}\<close> is invalid (an option is empty once trimmed), \<open>{a}\<close> is
  invalid (a group without a pipe), \<open>{a|b}\<close> is valid and no error is reported for it,
  every text whose braces do not balance is invalid, and in general a text is valid if
  and only if its braces balance and each of its groups has a pipe and no empty option.
\<close>

theorem validateSpintax_malformations:
  "\<not> isValid (validateSpintax ''{a|b|}'') \<and>
   \<not> isValid (validateSpintax ''{a}'') \<and>
   isValid (validateSpintax ''{a|b}'') \<and> errors (validateSpintax ''{a|b}'') = [] \<and>
   (\<forall>text. \<not> balanced text \<longrightarrow> \<not> isValid (validateSpintax text)) \<and>
   (\<forall>text. isValid (validateSpintax text) \<longleftrightarrow>
      balanced text \<and> (\<forall>g. is_group g text \<longrightarrow> group_ok g))"
proof -
  have gen: "isValid (validateSpintax s) \<longleftrightarrow>
      balanced s \<and> (\<forall>g. is_group g s \<longrightarrow> group_ok g)" for s
  proof -
    have "brace_scan 0 s = (0, False) \<longleftrightarrow> balanced s"
      using brace_scan_balanced balanced_brace_scan by blast
    moreover have "(\<forall>g \<in> set (all_groups s). group_ok g) \<longleftrightarrow> (\<forall>g. is_group g s \<longrightarrow> group_ok g)"
      by (auto simp: set_all_groups is_group_def)
    ultimately show ?thesis by (simp add: isValid_iff)
  qed
  have ev: "all_groups ''{a|b|}'' = [''a|b|'']" "all_groups ''{a}'' = [''a'']"
    "all_groups ''{a|b}'' = [''a|b'']"
    by (simp_all add: match_group_here_def is_brace_def)
  have 1: "\<not> isValid (validateSpintax ''{a|b|}'')"
    unfolding isValid_iff ev by (simp add: group_ok_def trim_def)
  have 2: "\<not> isValid (validateSpintax ''{a}'')"
    unfolding isValid_iff ev by (simp add: group_ok_def)
  have 3: "isValid (validateSpintax ''{a|b}'')"
    unfolding isValid_iff ev by (simp add: group_ok_def trim_def is_ws_def)
  have 4: "errors (validateSpintax ''{a|b}'') = []"
    using 3 by (simp add: validateSpintax_def Let_def split: prod.splits)
  from gen 1 2 3 4 show ?thesis by blast
qed

theorem validateSpintax_malformations_witness:
  "is_group ''a|b'' ''x{a|b}y'' \<and> group_ok ''a|b'' \<and> balanced ''x{a|b}y'' \<and>
   isValid (validateSpintax ''x{a|b}y'') \<and>
   \<not> balanced ''a}{'' \<and> \<not> isValid (validateSpintax ''a}{'')"
proof -
  have g: "is_group ''a|b'' ''x{a|b}y''"
  proof -
    have "''x{a|b}y'' = ''x'' @ CHR ''{'' # ''a|b'' @ CHR ''}'' # ''y''" by simp
    then have "\<exists>pre post. ''x{a|b}y'' = pre @ CHR ''{'' # ''a|b'' @ CHR ''}'' # post" by blast
    then show ?thesis by (simp add: is_group_def is_brace_def)
  qed
  have v: "isValid (validateSpintax ''x{a|b}y'')"
    by (simp add: validateSpintax_def match_group_here_def is_brace_def group_errors_def
        trim_def is_ws_def)
  have nb: "\<not> balanced ''a}{''"
  proof
    assume "balanced ''a}{''"
    then have "balanced ''}{''" by (cases rule: balanced.cases) auto
    then show False by (cases rule: balanced.cases) (auto simp: is_brace_def)
  qed
  from validateSpintax_malformations v g nb show ?thesis by blast
qed

section \<open>Spintax rendering\<close>

lemma parseSpintax_example:
  "parseSpintax (\<lambda>i. 1) ''hi {a| b }{c}'' = Some ''hi b{c}''"
  by (simp add: parseSpintax_def parse_loop.simps match_spin_here_def match_group_here_def
      is_brace_def replace_first_def trim_def is_ws_def)

lemma step_dollar:
  "exec_spin ''{$&|$&}'' = Some ''$&|$&''"
  "split_on CHR ''|'' ''$&|$&'' = [''$&'', ''$&'']"
  "trim ''$&'' = ''$&''"
  "replace_first ''{$&|$&}'' ''{$&|$&}'' ''$&'' = ''{$&|$&}''"
  by (simp_all add: match_spin_here_def match_group_here_def is_brace_def trim_def is_ws_def replace_first_def)

lemma parse_loop_dollar:
  assumes "parse_loop rnd i s = Some out"
  shows "s \<noteq> ''{$&|$&}''"
  using assms
proof (induct rule: parse_loop.raw_induct [rotated 1, consumes 1, case_names step])
  case (step loop rnd i s out)
  show ?case
  proof
    assume s: "s = ''{$&|$&}''"
    have pick: "[a, a] ! (k mod length [a, a]) = a" for a :: string and k :: nat
    proof -
      have "k mod 2 = 0 \<or> k mod 2 = Suc 0" by arith
      moreover have "length [a, a] = 2" by simp
      ultimately show ?thesis by (metis nth_Cons_0 nth_Cons_Suc)
    qed
    have "[''$&'', ''$&''] ! (rnd i mod length [''$&'', ''$&'']) = ''$&''" by (rule pick)
    with step(2) s have "loop rnd (Suc i) ''{$&|$&}'' = Some out"
      unfolding s step_dollar Let_def by (simp only: step_dollar option.case append_Cons append_Nil)
    from step(1) [OF this] show False by simp
  qed
qed

lemma parse_loop_no_marker:
  assumes "parse_loop rnd i s = Some out"
  shows "exec_spin out = None"
  using assms
proof (induct rule: parse_loop.raw_induct [rotated 1, consumes 1, case_names step])
  case (step loop rnd i s out)
  then show ?case
    by (cases "exec_spin s") (auto simp: Let_def)
qed

lemma parseSpintax_no_marker:
  "parseSpintax rnd s = Some out \<Longrightarrow> exec_spin out = None"
  unfolding parseSpintax_def by (rule parse_loop_no_marker)

lemma find_first_splits:
  "find_first pat pre s = Some (b, a) \<Longrightarrow> pre @ s = b @ pat @ a"
proof (induction s arbitrary: pre)
  case Nil
  then show ?case by (simp split: if_splits)
next
  case (Cons c t)
  show ?case
  proof (cases "prefix pat (c # t)")
    case True
    then obtain zs where zs: "c # t = pat @ zs" by (auto simp: prefix_def)
    from True Cons.prems have "b = pre" "a = drop (length pat) (c # t)" by simp_all
    with zs show ?thesis by simp
  next
    case False
    with Cons.prems have "find_first pat (pre @ [c]) t = Some (b, a)" by simp
    from Cons.IH [OF this] show ?thesis by simp
  qed
qed

lemma find_first_finds:
  "s = u @ pat @ v \<Longrightarrow> \<exists>b a. find_first pat pre s = Some (b, a)"
proof (induction s arbitrary: pre u)
  case Nil
  then show ?case by simp
next
  case (Cons c t)
  show ?case
  proof (cases "prefix pat (c # t)")
    case True
    then show ?thesis by simp
  next
    case False
    with Cons.prems have "u \<noteq> []" by (auto simp: prefix_def)
    with Cons.prems obtain u' where "u = c # u'" "t = u' @ pat @ v" by (cases u) auto
    from Cons.IH [OF this(2)] False show ?thesis by simp
  qed
qed

lemma exec_spin_found:
  "exec_spin s = Some content \<Longrightarrow>
     (\<exists>u v. s = u @ CHR ''{'' # content @ CHR ''}'' # v) \<and> (\<forall>c \<in> set content. \<not> is_brace c)"
proof (induction s)
  case Nil
  then show ?case by simp
next
  case (Cons c t)
  show ?case
  proof (cases "match_spin_here (c # t)")
    case None
    with Cons obtain u v where "t = u @ CHR ''{'' # content @ CHR ''}'' # v"
      and b: "\<forall>c \<in> set content. \<not> is_brace c" by auto
    then have "c # t = (c # u) @ CHR ''{'' # content @ CHR ''}'' # v" by simp
    with b show ?thesis by blast
  next
    case (Some a)
    with Cons.prems obtain rest where "match_spin_here (c # t) = Some (content, rest)"
      by (cases a) auto
    then have "match_group_here (c # t) = Some (content, rest)"
      by (auto simp: match_spin_here_def split: option.splits if_splits)
    then have "c # t = [] @ CHR ''{'' # content @ CHR ''}'' # rest" and b: "\<forall>c \<in> set content. \<not> is_brace c"
      by (simp_all add: match_group_here_iff)
    then show ?thesis by blast
  qed
qed

lemma get_substitution_plain:
  "CHR ''$'' \<notin> set repl \<Longrightarrow> get_substitution matched bef aft repl = repl"
  by (induction repl) auto

lemma split_on_chars: "opt \<in> set (split_on sep s) \<Longrightarrow> set opt \<subseteq> set s"
proof (induction s arbitrary: opt)
  case Nil
  then show ?case by simp
next
  case (Cons c t)
  show ?case
  proof (cases "c = sep")
    case True
    with Cons.prems have "opt = [] \<or> opt \<in> set (split_on sep t)" by simp
    with Cons.IH show ?thesis by auto
  next
    case False
    show ?thesis
    proof (cases "split_on sep t")
      case Nil
      with False Cons.prems show ?thesis by simp
    next
      case (Cons h r)
      with False Cons.prems have "opt = c # h \<or> opt \<in> set r" by simp
      moreover have "set h \<subseteq> set t" "\<And>o'. o' \<in> set r \<Longrightarrow> set o' \<subseteq> set t"
        using Cons Cons.IH by simp_all
      ultimately show ?thesis by auto
    qed
  qed
qed

lemma split_on_nonempty: "split_on sep s \<noteq> []"
  by (cases s) (auto split: list.splits)

lemma trim_chars: "set (trim s) \<subseteq> set s"
proof
  fix x
  assume "x \<in> set (trim s)"
  then have "x \<in> set (dropWhile is_ws (rev (dropWhile is_ws s)))" by (simp add: trim_def)
  then have "x \<in> set (rev (dropWhile is_ws s))" by (rule set_dropWhileD)
  then have "x \<in> set (dropWhile is_ws s)" by simp
  then show "x \<in> set s" by (rule set_dropWhileD)
qed

lemma replace_spin_step:
  assumes "exec_spin s = Some content" "CHR ''$'' \<notin> set s" "opt \<in> set (split_on CHR ''|'' content)"
  shows "opening_braces (replace_first s (CHR ''{'' # content @ ''}'') (trim opt)) < opening_braces s
    \<and> CHR ''$'' \<notin> set (replace_first s (CHR ''{'' # content @ ''}'') (trim opt))"
proof -
  let ?full = "CHR ''{'' # content @ ''}''"
  from exec_spin_found [OF assms(1)] obtain u v
    where s: "s = u @ ?full @ v" and nb: "\<forall>c \<in> set content. \<not> is_brace c" by auto
  from find_first_finds [OF s, of "[]"] obtain b a where f: "find_first ?full [] s = Some (b, a)"
    by blast
  from find_first_splits [OF f] have s': "s = b @ ?full @ a" by simp
  have sub: "set (trim opt) \<subseteq> set content"
    using trim_chars [of opt] split_on_chars [OF assms(3)] by blast
  with s' assms(2) have nd: "CHR ''$'' \<notin> set (trim opt)" by auto
  have r: "replace_first s ?full (trim opt) = b @ trim opt @ a"
    using f by (simp add: replace_first_def get_substitution_plain [OF nd])
  from sub nb have "filter (\<lambda>c. c = CHR ''{'') (trim opt) = []"
    by (auto simp: filter_empty_conv is_brace_def)
  then have "opening_braces (b @ trim opt @ a) < opening_braces (b @ ?full @ a)"
    by (simp add: opening_braces_def)
  moreover from s' assms(2) nd have "CHR ''$'' \<notin> set (b @ trim opt @ a)" by auto
  ultimately show ?thesis using r s' by simp
qed

lemma parse_loop_returns:
  "CHR ''$'' \<notin> set s \<Longrightarrow> \<exists>out. parse_loop rnd i s = Some out"
proof (induction "opening_braces s" arbitrary: s i rule: less_induct)
  case less
  show ?case
  proof (cases "exec_spin s")
    case None
    then show ?thesis by (subst parse_loop.simps) simp
  next
    case (Some content)
    let ?options = "split_on CHR ''|'' content"
    let ?opt = "?options ! (rnd i mod length ?options)"
    have "?opt \<in> set ?options"
      using split_on_nonempty [of "CHR ''|''" content] by (intro nth_mem) simp
    from replace_spin_step [OF Some less.prems this]
    have "\<exists>out. parse_loop rnd (Suc i) (replace_first s (CHR ''{'' # content @ ''}'') (trim ?opt)) = Some out"
      by (intro less.hyps) simp_all
    with Some show ?thesis by (subst parse_loop.simps) (simp add: Let_def)
  qed
qed

lemma parseSpintax_returns:
  "CHR ''$'' \<notin> set s \<Longrightarrow> \<exists>out. parseSpintax rnd s = Some out \<and> exec_spin out = None"
  using parse_loop_returns [of s rnd 0] parseSpintax_no_marker [of rnd s]
  by (auto simp: parseSpintax_def)

text \<open>
  Claim C8. Spintax rendering is claimed to end on every text, with no marker
  \<open>{...|...}\<close> left. Whenever the loop ends no marker is left
  (\<open>parseSpintax_no_marker\<close>), and on a text without a dollar sign it does end
  (\<open>parseSpintax_returns\<close>); but on the text \<open>{$&|$&}\<close> it never ends, whatever the
  random draws: the chosen option \<open>$&\<close> is handed to \<open>replace\<close> as a replacement
  pattern, where it stands for the matched text, so each round puts the marker back.
\<close>

theorem parseSpintax_never_returns: "parseSpintax rnd ''{$&|$&}'' = None"
proof (cases "parseSpintax rnd ''{$&|$&}''")
  case None
  then show ?thesis .
next
  case (Some out)
  then show ?thesis using parse_loop_dollar [of rnd 0 "''{$&|$&}''" out] by (simp add: parseSpintax_def)
qed

section \<open>Storage updates\<close>

lemma update_existing_keys:
  "map_of al k = Some v \<Longrightarrow> map fst (AList.update k v' al) = map fst al"
  by (induction al) (auto split: if_splits)

lemma updateContact_spec:
  "(\<forall>i u w. map_of (contacts w) i = None \<longrightarrow> updateContact i u w = (None, w)) \<and>
   (\<forall>i u w x. map_of (contacts w) i = Some x \<longrightarrow>
      fst (updateContact i u w) = Some (spread_contact x u) \<and>
      map_of (contacts (snd (updateContact i u w))) = (map_of (contacts w))(i \<mapsto> spread_contact x u) \<and>
      map fst (contacts (snd (updateContact i u w))) = map fst (contacts w) \<and>
      (snd (updateContact i u w))\<lparr>contacts := contacts w\<rparr> = w) \<and>
   (\<forall>x u.
       contact_id (spread_contact x u) = (case set_contact_id u of None \<Rightarrow> contact_id x | Some v \<Rightarrow> v) \<and>
       contact_name (spread_contact x u) = (case set_contact_name u of None \<Rightarrow> contact_name x | Some v \<Rightarrow> v) \<and>
       contact_phone (spread_contact x u) = (case set_contact_phone u of None \<Rightarrow> contact_phone x | Some v \<Rightarrow> v) \<and>
       contact_email (spread_contact x u) = (case set_contact_email u of None \<Rightarrow> contact_email x | Some v \<Rightarrow> v) \<and>
       contact_groups (spread_contact x u) = (case set_contact_groups u of None \<Rightarrow> contact_groups x | Some v \<Rightarrow> v) \<and>
       contact_metadata (spread_contact x u) = (case set_contact_metadata u of None \<Rightarrow> contact_metadata x | Some v \<Rightarrow> v) \<and>
       contact_createdAt (spread_contact x u) = (case set_contact_createdAt u of None \<Rightarrow> contact_createdAt x | Some v \<Rightarrow> v))"
  by (auto simp: updateContact_def Let_def update_conv map_of_eq_Some_iff spread_contact_def overlay_def
      intro: update_existing_keys)

lemma updateSession_spec:
  "(\<forall>i u w. map_of (sessions w) i = None \<longrightarrow> updateSession i u w = (None, w)) \<and>
   (\<forall>i u w x. map_of (sessions w) i = Some x \<longrightarrow>
      fst (updateSession i u w) = Some (spread_session x u) \<and>
      map_of (sessions (snd (updateSession i u w))) = (map_of (sessions w))(i \<mapsto> spread_session x u) \<and>
      map fst (sessions (snd (updateSession i u w))) = map fst (sessions w) \<and>
      (snd (updateSession i u w))\<lparr>sessions := sessions w\<rparr> = w) \<and>
   (\<forall>x u.
       session_id (spread_session x u) = (case set_session_id u of None \<Rightarrow> session_id x | Some v \<Rightarrow> v) \<and>
       session_sessionId (spread_session x u) = (case set_session_sessionId u of None \<Rightarrow> session_sessionId x | Some v \<Rightarrow> v) \<and>
       session_phone (spread_session x u) = (case set_session_phone u of None \<Rightarrow> session_phone x | Some v \<Rightarrow> v) \<and>
       session_status (spread_session x u) = (case set_session_status u of None \<Rightarrow> session_status x | Some v \<Rightarrow> v) \<and>
       session_qrCode (spread_session x u) = (case set_session_qrCode u of None \<Rightarrow> session_qrCode x | Some v \<Rightarrow> v) \<and>
       session_lastSeen (spread_session x u) = (case set_session_lastSeen u of None \<Rightarrow> session_lastSeen x | Some v \<Rightarrow> v) \<and>
       session_createdAt (spread_session x u) = (case set_session_createdAt u of None \<Rightarrow> session_createdAt x | Some v \<Rightarrow> v))"
  by (auto simp: updateSession_def Let_def update_conv map_of_eq_Some_iff spread_session_def overlay_def
      intro: update_existing_keys)

lemma updateCampaign_spec:
  "(\<forall>i u w. map_of (campaigns w) i = None \<longrightarrow> updateCampaign i u w = (None, w)) \<and>
   (\<forall>i u w x. map_of (campaigns w) i = Some x \<longrightarrow>
      fst (updateCampaign i u w) = Some (spread_campaign x u) \<and>
      map_of (campaigns (snd (updateCampaign i u w))) = (map_of (campaigns w))(i \<mapsto> spread_campaign x u) \<and>
      map fst (campaigns (snd (updateCampaign i u w))) = map fst (campaigns w) \<and>
      (snd (updateCampaign i u w))\<lparr>campaigns := campaigns w\<rparr> = w) \<and>
   (\<forall>x u.
       campaign_id (spread_campaign x u) = (case set_campaign_id u of None \<Rightarrow> campaign_id x | Some v \<Rightarrow> v) \<and>
       campaign_name (spread_campaign x u) = (case set_campaign_name u of None \<Rightarrow> campaign_name x | Some v \<Rightarrow> v) \<and>
       campaign_message (spread_campaign x u) = (case set_campaign_message u of None \<Rightarrow> campaign_message x | Some v \<Rightarrow> v) \<and>
       campaign_contactGroups (spread_campaign x u) = (case set_campaign_contactGroups u of None \<Rightarrow> campaign_contactGroups x | Some v \<Rightarrow> v) \<and>
       campaign_mediaUrl (spread_campaign x u) = (case set_campaign_mediaUrl u of None \<Rightarrow> campaign_mediaUrl x | Some v \<Rightarrow> v) \<and>
       campaign_mediaType (spread_campaign x u) = (case set_campaign_mediaType u of None \<Rightarrow> campaign_mediaType x | Some v \<Rightarrow> v) \<and>
       campaign_status (spread_campaign x u) = (case set_campaign_status u of None \<Rightarrow> campaign_status x | Some v \<Rightarrow> v) \<and>
       campaign_scheduledAt (spread_campaign x u) = (case set_campaign_scheduledAt u of None \<Rightarrow> campaign_scheduledAt x | Some v \<Rightarrow> v) \<and>
       campaign_rateLimit (spread_campaign x u) = (case set_campaign_rateLimit u of None \<Rightarrow> campaign_rateLimit x | Some v \<Rightarrow> v) \<and>
       campaign_totalRecipients (spread_campaign x u) = (case set_campaign_totalRecipients u of None \<Rightarrow> campaign_totalRecipients x | Some v \<Rightarrow> v) \<and>
       campaign_messagesSent (spread_campaign x u) = (case set_campaign_messagesSent u of None \<Rightarrow> campaign_messagesSent x | Some v \<Rightarrow> v) \<and>
       campaign_messagesDelivered (spread_campaign x u) = (case set_campaign_messagesDelivered u of None \<Rightarrow> campaign_messagesDelivered x | Some v \<Rightarrow> v) \<and>
       campaign_messagesResponded (spread_campaign x u) = (case set_campaign_messagesResponded u of None \<Rightarrow> campaign_messagesResponded x | Some v \<Rightarrow> v) \<and>
       campaign_sessionId (spread_campaign x u) = (case set_campaign_sessionId u of None \<Rightarrow> campaign_sessionId x | Some v \<Rightarrow> v) \<and>
       campaign_createdAt (spread_campaign x u) = (case set_campaign_createdAt u of None \<Rightarrow> campaign_createdAt x | Some v \<Rightarrow> v))"
  by (auto simp: updateCampaign_def Let_def update_conv map_of_eq_Some_iff spread_campaign_def overlay_def
      intro: update_existing_keys)

lemma updateAutoReplyRule_spec:
  "(\<forall>i u w. map_of (autoReplyRules w) i = None \<longrightarrow> updateAutoReplyRule i u w = (None, w)) \<and>
   (\<forall>i u w x. map_of (autoReplyRules w) i = Some x \<longrightarrow>
      fst (updateAutoReplyRule i u w) = Some (spread_auto_reply_rule x u) \<and>
      map_of (autoReplyRules (snd (updateAutoReplyRule i u w))) = (map_of (autoReplyRules w))(i \<mapsto> spread_auto_reply_rule x u) \<and>
      map fst (autoReplyRules (snd (updateAutoReplyRule i u w))) = map fst (autoReplyRules w) \<and>
      (snd (updateAutoReplyRule i u w))\<lparr>autoReplyRules := autoReplyRules w\<rparr> = w) \<and>
   (\<forall>x u.
       rule_id (spread_auto_reply_rule x u) = (case set_rule_id u of None \<Rightarrow> rule_id x | Some v \<Rightarrow> v) \<and>
       rule_name (spread_auto_reply_rule x u) = (case set_rule_name u of None \<Rightarrow> rule_name x | Some v \<Rightarrow> v) \<and>
       rule_keywords (spread_auto_reply_rule x u) = (case set_rule_keywords u of None \<Rightarrow> rule_keywords x | Some v \<Rightarrow> v) \<and>
       rule_triggerType (spread_auto_reply_rule x u) = (case set_rule_triggerType u of None \<Rightarrow> rule_triggerType x | Some v \<Rightarrow> v) \<and>
       rule_response (spread_auto_reply_rule x u) = (case set_rule_response u of None \<Rightarrow> rule_response x | Some v \<Rightarrow> v) \<and>
       rule_delay (spread_auto_reply_rule x u) = (case set_rule_delay u of None \<Rightarrow> rule_delay x | Some v \<Rightarrow> v) \<and>
       rule_isActive (spread_auto_reply_rule x u) = (case set_rule_isActive u of None \<Rightarrow> rule_isActive x | Some v \<Rightarrow> v) \<and>
       rule_businessHoursOnly (spread_auto_reply_rule x u) = (case set_rule_businessHoursOnly u of None \<Rightarrow> rule_businessHoursOnly x | Some v \<Rightarrow> v) \<and>
       rule_businessHoursStart (spread_auto_reply_rule x u) = (case set_rule_businessHoursStart u of None \<Rightarrow> rule_businessHoursStart x | Some v \<Rightarrow> v) \<and>
       rule_businessHoursEnd (spread_auto_reply_rule x u) = (case set_rule_businessHoursEnd u of None \<Rightarrow> rule_businessHoursEnd x | Some v \<Rightarrow> v) \<and>
       rule_sessionId (spread_auto_reply_rule x u) = (case set_rule_sessionId u of None \<Rightarrow> rule_sessionId x | Some v \<Rightarrow> v) \<and>
       rule_createdAt (spread_auto_reply_rule x u) = (case set_rule_createdAt u of None \<Rightarrow> rule_createdAt x | Some v \<Rightarrow> v))"
  by (auto simp: updateAutoReplyRule_def Let_def update_conv map_of_eq_Some_iff spread_auto_reply_rule_def overlay_def
      intro: update_existing_keys)

lemma updateQueuedMessage_spec:
  "(\<forall>i u w. map_of (messageQueue w) i = None \<longrightarrow> updateQueuedMessage i u w = (None, w)) \<and>
   (\<forall>i u w x. map_of (messageQueue w) i = Some x \<longrightarrow>
      fst (updateQueuedMessage i u w) = Some (spread_queued_message x u) \<and>
      map_of (messageQueue (snd (updateQueuedMessage i u w))) = (map_of (messageQueue w))(i \<mapsto> spread_queued_message x u) \<and>
      map fst (messageQueue (snd (updateQueuedMessage i u w))) = map fst (messageQueue w) \<and>
      (snd (updateQueuedMessage i u w))\<lparr>messageQueue := messageQueue w\<rparr> = w) \<and>
   (\<forall>x u.
       msg_id (spread_queued_message x u) = (case set_msg_id u of None \<Rightarrow> msg_id x | Some v \<Rightarrow> v) \<and>
       msg_campaignId (spread_queued_message x u) = (case set_msg_campaignId u of None \<Rightarrow> msg_campaignId x | Some v \<Rightarrow> v) \<and>
       msg_contactId (spread_queued_message x u) = (case set_msg_contactId u of None \<Rightarrow> msg_contactId x | Some v \<Rightarrow> v) \<and>
       msg_message (spread_queued_message x u) = (case set_msg_message u of None \<Rightarrow> msg_message x | Some v \<Rightarrow> v) \<and>
       msg_mediaUrl (spread_queued_message x u) = (case set_msg_mediaUrl u of None \<Rightarrow> msg_mediaUrl x | Some v \<Rightarrow> v) \<and>
       msg_mediaType (spread_queued_message x u) = (case set_msg_mediaType u of None \<Rightarrow> msg_mediaType x | Some v \<Rightarrow> v) \<and>
       msg_status (spread_queued_message x u) = (case set_msg_status u of None \<Rightarrow> msg_status x | Some v \<Rightarrow> v) \<and>
       msg_scheduledAt (spread_queued_message x u) = (case set_msg_scheduledAt u of None \<Rightarrow> msg_scheduledAt x | Some v \<Rightarrow> v) \<and>
       msg_sentAt (spread_queued_message x u) = (case set_msg_sentAt u of None \<Rightarrow> msg_sentAt x | Some v \<Rightarrow> v) \<and>
       msg_deliveredAt (spread_queued_message x u) = (case set_msg_deliveredAt u of None \<Rightarrow> msg_deliveredAt x | Some v \<Rightarrow> v) \<and>
       msg_errorMessage (spread_queued_message x u) = (case set_msg_errorMessage u of None \<Rightarrow> msg_errorMessage x | Some v \<Rightarrow> v) \<and>
       msg_sessionId (spread_queued_message x u) = (case set_msg_sessionId u of None \<Rightarrow> msg_sessionId x | Some v \<Rightarrow> v) \<and>
       msg_createdAt (spread_queued_message x u) = (case set_msg_createdAt u of None \<Rightarrow> msg_createdAt x | Some v \<Rightarrow> v))"
  by (auto simp: updateQueuedMessage_def Let_def update_conv map_of_eq_Some_iff spread_queued_message_def overlay_def
      intro: update_existing_keys)

text \<open>
  Claim C10. Each update operation of the storage layer (\<open>updateContact\<close>,
  \<open>updateSession\<close>, \<open>updateCampaign\<close>, \<open>updateAutoReplyRule\<close>,
  \<open>updateQueuedMessage\<close>), given an identifier under which no record is stored, returns
  \<open>undefined\<close> and leaves the store as it was; given the identifier of a record, it
  returns the updated record, changes the entry of that identifier only (no key is
  added, removed or moved, and nothing else in the store changes), and in the updated
  record every property is the supplied one where the update supplies it and the old
  one where it does not.
\<close>

theorem update_missing_or_spread:
  "((\<forall>i u w. map_of (contacts w) i = None \<longrightarrow> updateContact i u w = (None, w)) \<and>
   (\<forall>i u w x. map_of (contacts w) i = Some x \<longrightarrow>
      fst (updateContact i u w) = Some (spread_contact x u) \<and>
      map_of (contacts (snd (updateContact i u w))) = (map_of (contacts w))(i \<mapsto> spread_contact x u) \<and>
      map fst (contacts (snd (updateContact i u w))) = map fst (contacts w) \<and>
      (snd (updateContact i u w))\<lparr>contacts := contacts w\<rparr> = w) \<and>
   (\<forall>x u.
       contact_id (spread_contact x u) = (case set_contact_id u of None \<Rightarrow> contact_id x | Some v \<Rightarrow> v) \<and>
       contact_name (spread_contact x u) = (case set_contact_name u of None \<Rightarrow> contact_name x | Some v \<Rightarrow> v) \<and>
       contact_phone (spread_contact x u) = (case set_contact_phone u of None \<Rightarrow> contact_phone x | Some v \<Rightarrow> v) \<and>
       contact_email (spread_contact x u) = (case set_contact_email u of None \<Rightarrow> contact_email x | Some v \<Rightarrow> v) \<and>
       contact_groups (spread_contact x u) = (case set_contact_groups u of None \<Rightarrow> contact_groups x | Some v \<Rightarrow> v) \<and>
       contact_metadata (spread_contact x u) = (case set_contact_metadata u of None \<Rightarrow> contact_metadata x | Some v \<Rightarrow> v) \<and>
       contact_createdAt (spread_contact x u) = (case set_contact_createdAt u of None \<Rightarrow> contact_createdAt x | Some v \<Rightarrow> v))) \<and>
   ((\<forall>i u w. map_of (sessions w) i = None \<longrightarrow> updateSession i u w = (None, w)) \<and>
   (\<forall>i u w x. map_of (sessions w) i = Some x \<longrightarrow>
      fst (updateSession i u w) = Some (spread_session x u) \<and>
      map_of (sessions (snd (updateSession i u w))) = (map_of (sessions w))(i \<mapsto> spread_session x u) \<and>
      map fst (sessions (snd (updateSession i u w))) = map fst (sessions w) \<and>
      (snd (updateSession i u w))\<lparr>sessions := sessions w\<rparr> = w) \<and>
   (\<forall>x u.
       session_id (spread_session x u) = (case set_session_id u of None \<Rightarrow> session_id x | Some v \<Rightarrow> v) \<and>
       session_sessionId (spread_session x u) = (case set_session_sessionId u of None \<Rightarrow> session_sessionId x | Some v \<Rightarrow> v) \<and>
       session_phone (spread_session x u) = (case set_session_phone u of None \<Rightarrow> session_phone x | Some v \<Rightarrow> v) \<and>
       session_status (spread_session x u) = (case set_session_status u of None \<Rightarrow> session_status x | Some v \<Rightarrow> v) \<and>
       session_qrCode (spread_session x u) = (case set_session_qrCode u of None \<Rightarrow> session_qrCode x | Some v \<Rightarrow> v) \<and>
       session_lastSeen (spread_session x u) = (case set_session_lastSeen u of None \<Rightarrow> session_lastSeen x | Some v \<Rightarrow> v) \<and>
       session_createdAt (spread_session x u) = (case set_session_createdAt u of None \<Rightarrow> session_createdAt x | Some v \<Rightarrow> v))) \<and>
   ((\<forall>i u w. map_of (campaigns w) i = None \<longrightarrow> updateCampaign i u w = (None, w)) \<and>
   (\<forall>i u w x. map_of (campaigns w) i = Some x \<longrightarrow>
      fst (updateCampaign i u w) = Some (spread_campaign x u) \<and>
      map_of (campaigns (snd (updateCampaign i u w))) = (map_of (campaigns w))(i \<mapsto> spread_campaign x u) \<and>
      map fst (campaigns (snd (updateCampaign i u w))) = map fst (campaigns w) \<and>
      (snd (updateCampaign i u w))\<lparr>campaigns := campaigns w\<rparr> = w) \<and>
   (\<forall>x u.
       campaign_id (spread_campaign x u) = (case set_campaign_id u of None \<Rightarrow> campaign_id x | Some v \<Rightarrow> v) \<and>
       campaign_name (spread_campaign x u) = (case set_campaign_name u of None \<Rightarrow> campaign_name x | Some v \<Rightarrow> v) \<and>
       campaign_message (spread_campaign x u) = (case set_campaign_message u of None \<Rightarrow> campaign_message x | Some v \<Rightarrow> v) \<and>
       campaign_contactGroups (spread_campaign x u) = (case set_campaign_contactGroups u of None \<Rightarrow> campaign_contactGroups x | Some v \<Rightarrow> v) \<and>
       campaign_mediaUrl (spread_campaign x u) = (case set_campaign_mediaUrl u of None \<Rightarrow> campaign_mediaUrl x | Some v \<Rightarrow> v) \<and>
       campaign_mediaType (spread_campaign x u) = (case set_campaign_mediaType u of None \<Rightarrow> campaign_mediaType x | Some v \<Rightarrow> v) \<and>
       campaign_status (spread_campaign x u) = (case set_campaign_status u of None \<Rightarrow> campaign_status x | Some v \<Rightarrow> v) \<and>
       campaign_scheduledAt (spread_campaign x u) = (case set_campaign_scheduledAt u of None \<Rightarrow> campaign_scheduledAt x | Some v \<Rightarrow> v) \<and>
       campaign_rateLimit (spread_campaign x u) = (case set_campaign_rateLimit u of None \<Rightarrow> campaign_rateLimit x | Some v \<Rightarrow> v) \<and>
       campaign_totalRecipients (spread_campaign x u) = (case set_campaign_totalRecipients u of None \<Rightarrow> campaign_totalRecipients x | Some v \<Rightarrow> v) \<and>
       campaign_messagesSent (spread_campaign x u) = (case set_campaign_messagesSent u of None \<Rightarrow> campaign_messagesSent x | Some v \<Rightarrow> v) \<and>
       campaign_messagesDelivered (spread_campaign x u) = (case set_campaign_messagesDelivered u of None \<Rightarrow> campaign_messagesDelivered x | Some v \<Rightarrow> v) \<and>
       campaign_messagesResponded (spread_campaign x u) = (case set_campaign_messagesResponded u of None \<Rightarrow> campaign_messagesResponded x | Some v \<Rightarrow> v) \<and>
       campaign_sessionId (spread_campaign x u) = (case set_campaign_sessionId u of None \<Rightarrow> campaign_sessionId x | Some v \<Rightarrow> v) \<and>
       campaign_createdAt (spread_campaign x u) = (case set_campaign_createdAt u of None \<Rightarrow> campaign_createdAt x | Some v \<Rightarrow> v))) \<and>
   ((\<forall>i u w. map_of (autoReplyRules w) i = None \<longrightarrow> updateAutoReplyRule i u w = (None, w)) \<and>
   (\<forall>i u w x. map_of (autoReplyRules w) i = Some x \<longrightarrow>
      fst (updateAutoReplyRule i u w) = Some (spread_auto_reply_rule x u) \<and>
      map_of (autoReplyRules (snd (updateAutoReplyRule i u w))) = (map_of (autoReplyRules w))(i \<mapsto> spread_auto_reply_rule x u) \<and>
      map fst (autoReplyRules (snd (updateAutoReplyRule i u w))) = map fst (autoReplyRules w) \<and>
      (snd (updateAutoReplyRule i u w))\<lparr>autoReplyRules := autoReplyRules w\<rparr> = w) \<and>
   (\<forall>x u.
       rule_id (spread_auto_reply_rule x u) = (case set_rule_id u of None \<Rightarrow> rule_id x | Some v \<Rightarrow> v) \<and>
       rule_name (spread_auto_reply_rule x u) = (case set_rule_name u of None \<Rightarrow> rule_name x | Some v \<Rightarrow> v) \<and>
       rule_keywords (spread_auto_reply_rule x u) = (case set_rule_keywords u of None \<Rightarrow> rule_keywords x | Some v \<Rightarrow> v) \<and>
       rule_triggerType (spread_auto_reply_rule x u) = (case set_rule_triggerType u of None \<Rightarrow> rule_triggerType x | Some v \<Rightarrow> v) \<and>
       rule_response (spread_auto_reply_rule x u) = (case set_rule_response u of None \<Rightarrow> rule_response x | Some v \<Rightarrow> v) \<and>
       rule_delay (spread_auto_reply_rule x u) = (case set_rule_delay u of None \<Rightarrow> rule_delay x | Some v \<Rightarrow> v) \<and>
       rule_isActive (spread_auto_reply_rule x u) = (case set_rule_isActive u of None \<Rightarrow> rule_isActive x | Some v \<Rightarrow> v) \<and>
       rule_businessHoursOnly (spread_auto_reply_rule x u) = (case set_rule_businessHoursOnly u of None \<Rightarrow> rule_businessHoursOnly x | Some v \<Rightarrow> v) \<and>
       rule_businessHoursStart (spread_auto_reply_rule x u) = (case set_rule_businessHoursStart u of None \<Rightarrow> rule_businessHoursStart x | Some v \<Rightarrow> v) \<and>
       rule_businessHoursEnd (spread_auto_reply_rule x u) = (case set_rule_businessHoursEnd u of None \<Rightarrow> rule_businessHoursEnd x | Some v \<Rightarrow> v) \<and>
       rule_sessionId (spread_auto_reply_rule x u) = (case set_rule_sessionId u of None \<Rightarrow> rule_sessionId x | Some v \<Rightarrow> v) \<and>
       rule_createdAt (spread_auto_reply_rule x u) = (case set_rule_createdAt u of None \<Rightarrow> rule_createdAt x | Some v \<Rightarrow> v))) \<and>
   ((\<forall>i u w. map_of (messageQueue w) i = None \<longrightarrow> updateQueuedMessage i u w = (None, w)) \<and>
   (\<forall>i u w x. map_of (messageQueue w) i = Some x \<longrightarrow>
      fst (updateQueuedMessage i u w) = Some (spread_queued_message x u) \<and>
      map_of (messageQueue (snd (updateQueuedMessage i u w))) = (map_of (messageQueue w))(i \<mapsto> spread_queued_message x u) \<and>
      map fst (messageQueue (snd (updateQueuedMessage i u w))) = map fst (messageQueue w) \<and>
      (snd (updateQueuedMessage i u w))\<lparr>messageQueue := messageQueue w\<rparr> = w) \<and>
   (\<forall>x u.
       msg_id (spread_queued_message x u) = (case set_msg_id u of None \<Rightarrow> msg_id x | Some v \<Rightarrow> v) \<and>
       msg_campaignId (spread_queued_message x u) = (case set_msg_campaignId u of None \<Rightarrow> msg_campaignId x | Some v \<Rightarrow> v) \<and>
       msg_contactId (spread_queued_message x u) = (case set_msg_contactId u of None \<Rightarrow> msg_contactId x | Some v \<Rightarrow> v) \<and>
       msg_message (spread_queued_message x u) = (case set_msg_message u of None \<Rightarrow> msg_message x | Some v \<Rightarrow> v) \<and>
       msg_mediaUrl (spread_queued_message x u) = (case set_msg_mediaUrl u of None \<Rightarrow> msg_mediaUrl x | Some v \<Rightarrow> v) \<and>
       msg_mediaType (spread_queued_message x u) = (case set_msg_mediaType u of None \<Rightarrow> msg_mediaType x | Some v \<Rightarrow> v) \<and>
       msg_status (spread_queued_message x u) = (case set_msg_status u of None \<Rightarrow> msg_status x | Some v \<Rightarrow> v) \<and>
       msg_scheduledAt (spread_queued_message x u) = (case set_msg_scheduledAt u of None \<Rightarrow> msg_scheduledAt x | Some v \<Rightarrow> v) \<and>
       msg_sentAt (spread_queued_message x u) = (case set_msg_sentAt u of None \<Rightarrow> msg_sentAt x | Some v \<Rightarrow> v) \<and>
       msg_deliveredAt (spread_queued_message x u) = (case set_msg_deliveredAt u of None \<Rightarrow> msg_deliveredAt x | Some v \<Rightarrow> v) \<and>
       msg_errorMessage (spread_queued_message x u) = (case set_msg_errorMessage u of None \<Rightarrow> msg_errorMessage x | Some v \<Rightarrow> v) \<and>
       msg_sessionId (spread_queued_message x u) = (case set_msg_sessionId u of None \<Rightarrow> msg_sessionId x | Some v \<Rightarrow> v) \<and>
       msg_createdAt (spread_queued_message x u) = (case set_msg_createdAt u of None \<Rightarrow> msg_createdAt x | Some v \<Rightarrow> v)))"
  by (rule conjI [OF updateContact_spec conjI [OF updateSession_spec conjI [OF updateCampaign_spec
      conjI [OF updateAutoReplyRule_spec updateQueuedMessage_spec]]]])

theorem update_missing_or_spread_witness:
  "updateCampaign ''c9'' (no_campaign_update\<lparr>set_campaign_status := Some ''paused''\<rparr>)
      (empty_world\<lparr>campaigns := [(''c1'', example_campaign)]\<rparr>)
     = (None, empty_world\<lparr>campaigns := [(''c1'', example_campaign)]\<rparr>) \<and>
   fst (updateCampaign ''c1'' (no_campaign_update\<lparr>set_campaign_status := Some ''paused''\<rparr>)
      (empty_world\<lparr>campaigns := [(''c1'', example_campaign)]\<rparr>))
     = Some (example_campaign\<lparr>campaign_status := ''paused''\<rparr>) \<and>
   map fst (campaigns (snd (updateCampaign ''c1''
      (no_campaign_update\<lparr>set_campaign_status := Some ''paused''\<rparr>)
      (empty_world\<lparr>campaigns := [(''c1'', example_campaign)]\<rparr>)))) = [''c1'']"
proof -
  let ?w = "empty_world\<lparr>campaigns := [(''c1'', example_campaign)]\<rparr>"
  let ?u = "no_campaign_update\<lparr>set_campaign_status := Some ''paused''\<rparr>"
  note c = update_missing_or_spread [THEN conjunct2, THEN conjunct2, THEN conjunct1]
  have missing: "map_of (campaigns ?w) ''c9'' = None" by simp
  have present: "map_of (campaigns ?w) ''c1'' = Some example_campaign" by simp
  have sp: "spread_campaign example_campaign ?u = example_campaign\<lparr>campaign_status := ''paused''\<rparr>"
    by (simp add: spread_campaign_def no_campaign_update_def overlay_def example_campaign_def)
  from c [THEN conjunct1, rule_format, OF missing]
  have 1: "updateCampaign ''c9'' ?u ?w = (None, ?w)" .
  from c [THEN conjunct2, THEN conjunct1, rule_format, OF present, of ?u]
  have 2: "fst (updateCampaign ''c1'' ?u ?w) = Some (spread_campaign example_campaign ?u)"
    and 3: "map fst (campaigns (snd (updateCampaign ''c1'' ?u ?w))) = map fst (campaigns ?w)"
    by blast+
  from 1 2 3 sp show ?thesis by simp
qed

section \<open>Personalization\<close>

lemma replace_all_absent:
  "\<not> sublist pat s \<Longrightarrow> replace_all pat repl pre s = s"
proof (induction pat repl pre s rule: replace_all.induct)
  case (1 pat repl pre s)
  show ?case
  proof (cases s)
    case Nil
    then show ?thesis by (simp add: replace_all.simps)
  next
    case (Cons c t)
    from 1(3) have np: "\<not> prefix pat s" by (auto simp: prefix_def sublist_def)
    from 1(3) Cons have "\<not> sublist pat t" by (simp add: sublist_Cons_right)
    with 1(2) [OF _ Cons] np have "replace_all pat repl (pre @ [c]) t = t" by simp
    with np Cons show ?thesis by (subst replace_all.simps) simp
  qed
qed

lemma replace_global_absent: "\<not> sublist lit s \<Longrightarrow> replace_global s lit repl = s"
  by (simp add: replace_global_def replace_all_absent)

lemma replace_keys_plain:
  "\<forall>key \<in> set (map fst kvs). \<forall>c \<in> set key. \<not> regex_syntax c \<Longrightarrow>
     \<exists>out. replace_keys engine kvs message = Inr out"
proof (induction kvs arbitrary: message)
  case Nil
  then show ?case by simp
next
  case (Cons kv kvs)
  obtain key val where kv: "kv = (key, val)" by (cases kv)
  with Cons.prems have "compile_key key = Literal (CHR ''{'' # key @ ''}'')"
    by (simp add: compile_key_def)
  with kv Cons show ?case by simp
qed

lemma replace_keys_absent:
  "\<forall>key \<in> set (map fst kvs). \<forall>c \<in> set key. \<not> regex_syntax c \<Longrightarrow>
   \<forall>key \<in> set (map fst kvs). \<not> sublist (CHR ''{'' # key @ ''}'') message \<Longrightarrow>
     replace_keys engine kvs message = Inr message"
proof (induction kvs)
  case Nil
  then show ?case by simp
next
  case (Cons kv kvs)
  obtain key val where kv: "kv = (key, val)" by (cases kv)
  with Cons.prems have "compile_key key = Literal (CHR ''{'' # key @ ''}'')"
    by (simp add: compile_key_def)
  moreover from kv Cons.prems have "replace_global message (CHR ''{'' # key @ ''}'') val = message"
    by (simp add: replace_global_absent)
  ultimately show ?case using kv Cons by simp
qed

lemma personalize_total:
  assumes "plain_keys contact"
  shows "\<exists>out. personalizeMessage engine template contact = Inr out"
proof (cases "contact_metadata contact")
  case None
  then show ?thesis by (simp add: personalizeMessage_def)
next
  case (Some md)
  with assms have "\<forall>key \<in> set (map fst md). \<forall>c \<in> set key. \<not> regex_syntax c"
    by (simp add: plain_keys_def metadata_keys_def)
  from replace_keys_plain [OF this] Some show ?thesis
    by (simp add: personalizeMessage_def)
qed

lemma personalize_absent:
  assumes "plain_keys contact" "\<forall>p \<in> set (placeholders contact). \<not> sublist p template"
  shows "personalizeMessage engine template contact = Inr template"
proof -
  from assms(2) have n: "\<not> sublist ''{name}'' template" "\<not> sublist ''{phone}'' template"
    "\<not> sublist ''{email}'' template"
    by (simp_all add: placeholders_def)
  show ?thesis
  proof (cases "contact_metadata contact")
    case None
    with n show ?thesis by (simp add: personalizeMessage_def replace_global_absent)
  next
    case (Some md)
    with assms have "replace_keys engine md template = Inr template"
      by (intro replace_keys_absent) (auto simp: plain_keys_def placeholders_def metadata_keys_def)
    with Some n show ?thesis by (simp add: personalizeMessage_def replace_global_absent)
  qed
qed

lemma replace_all_skip:
  "CHR ''{'' \<notin> set u \<Longrightarrow>
     replace_all (CHR ''{'' # p) v pre (u @ rest) = u @ replace_all (CHR ''{'' # p) v (pre @ u) rest"
proof (induction u arbitrary: pre)
  case Nil
  then show ?case by simp
next
  case (Cons c u)
  then have "c \<noteq> CHR ''{''" by auto
  then have "replace_all (CHR ''{'' # p) v pre ((c # u) @ rest)
      = c # replace_all (CHR ''{'' # p) v (pre @ [c]) (u @ rest)"
    by (subst replace_all.simps) simp
  with Cons show ?case by simp
qed

lemma placeholder_prefix:
  assumes "\<forall>c \<in> set k. \<not> is_brace c" "\<forall>c \<in> set k'. \<not> is_brace c"
  shows "prefix (CHR ''{'' # k @ ''}'') (CHR ''{'' # k' @ CHR ''}'' # rest) \<longleftrightarrow> k' = k"
proof
  assume "prefix (CHR ''{'' # k @ ''}'') (CHR ''{'' # k' @ CHR ''}'' # rest)"
  then obtain zs where "k' @ CHR ''}'' # rest = k @ CHR ''}'' # zs"
    by (auto simp: prefix_def)
  from first_brace_unique [OF this assms(2) assms(1)] show "k' = k"
    by (simp add: is_brace_def)
next
  assume "k' = k"
  then show "prefix (CHR ''{'' # k @ ''}'') (CHR ''{'' # k' @ CHR ''}'' # rest)"
    by (simp add: prefix_def)
qed

lemma replace_all_render:
  assumes "\<forall>c \<in> set k. \<not> is_brace c" "CHR ''$'' \<notin> set v" "well_formed ps"
  shows "replace_all (CHR ''{'' # k @ ''}'') v pre (render ps) = render (map (put k v) ps)"
  using assms(3)
proof (induction ps arbitrary: pre)
  case Nil
  then show ?case by (simp add: render_def replace_all.simps)
next
  case (Cons p ps)
  then have wf: "well_formed ps" and bp: "brace_free_piece p" by (simp_all add: well_formed_def)
  note IH = Cons.IH [OF wf]
  show ?case
  proof (cases p)
    case (Plain s)
    with bp have "CHR ''{'' \<notin> set s" by (auto simp: is_brace_def)
    from replace_all_skip [OF this, of "k @ ''}''" v pre "render ps"] IH Plain
    show ?thesis by (simp add: render_def)
  next
    case (Placeholder k')
    with bp have bk': "\<forall>c \<in> set k'. \<not> is_brace c" by simp
    let ?pat = "CHR ''{'' # k @ ''}''"
    show ?thesis
    proof (cases "k' = k")
      case True
      have "replace_all ?pat v pre (?pat @ render ps)
          = get_substitution ?pat pre (render ps) v @ replace_all ?pat v (pre @ ?pat) (render ps)"
        by (subst replace_all.simps) simp
      with True Placeholder IH show ?thesis
        by (simp add: render_def get_substitution_plain [OF assms(2)])
    next
      case False
      let ?s = "CHR ''{'' # k' @ CHR ''}'' # render ps"
      from placeholder_prefix [OF assms(1) bk'] False have np: "\<not> prefix ?pat ?s" by simp
      have "replace_all ?pat v pre ?s = CHR ''{'' # replace_all ?pat v (pre @ ''{'') (k' @ CHR ''}'' # render ps)"
        using np by (subst replace_all.simps) simp
      also have "k' @ CHR ''}'' # render ps = (k' @ ''}'') @ render ps" by simp
      also have "replace_all ?pat v (pre @ ''{'') ((k' @ ''}'') @ render ps)
          = (k' @ ''}'') @ replace_all ?pat v ((pre @ ''{'') @ (k' @ ''}'')) (render ps)"
        using bk' by (intro replace_all_skip) (auto simp: is_brace_def)
      finally show ?thesis using False Placeholder IH by (simp add: render_def)
    qed
  qed
qed

lemma replace_global_render:
  "\<forall>c \<in> set k. \<not> is_brace c \<Longrightarrow> CHR ''$'' \<notin> set v \<Longrightarrow> well_formed ps \<Longrightarrow>
     replace_global (render ps) (CHR ''{'' # k @ ''}'') v = render (map (put k v) ps)"
  by (simp add: replace_global_def replace_all_render)

lemma well_formed_put: "clean v \<Longrightarrow> well_formed ps \<Longrightarrow> well_formed (map (put k v) ps)"
proof -
  assume v: "clean v" and wf: "well_formed ps"
  have "brace_free_piece (put k v p)" if "brace_free_piece p" for p
    using that v by (cases p) (auto simp: clean_def)
  with wf show ?thesis by (simp add: well_formed_def)
qed

lemma fill_md_put: "fill_md kvs (put k v p) = fill_md ((k, v) # kvs) p"
  by (cases p) auto

lemma replace_keys_render:
  assumes "\<forall>key \<in> set (map fst md). \<forall>c \<in> set key. \<not> regex_syntax c"
    "\<forall>v \<in> set (map snd md). clean v" "well_formed ps"
  shows "replace_keys engine md (render ps) = Inr (render (map (fill_md md) ps))"
  using assms
proof (induction md arbitrary: ps)
  case Nil
  have "map (fill_md []) ps = ps"
  proof (rule map_idI)
    fix p show "fill_md [] p = p" by (cases p) simp_all
  qed
  then show ?case by simp
next
  case (Cons kv md)
  obtain k v where kv: "kv = (k, v)" by (cases kv)
  with Cons.prems have plain: "\<forall>c \<in> set k. \<not> regex_syntax c" and v: "clean v" by simp_all
  from plain have bk: "\<forall>c \<in> set k. \<not> is_brace c" by (auto simp: regex_syntax_def is_brace_def)
  from v have nd: "CHR ''$'' \<notin> set v" by (auto simp: clean_def)
  from plain have ck: "compile_key k = Literal (CHR ''{'' # k @ ''}'')" by (simp add: compile_key_def)
  have "replace_keys engine (kv # md) (render ps)
      = replace_keys engine md (render (map (put k v) ps))"
    using kv ck by (simp add: replace_global_render [OF bk nd Cons.prems(3)])
  also have "\<dots> = Inr (render (map (fill_md md) (map (put k v) ps)))"
    using Cons.prems kv by (intro Cons.IH well_formed_put [OF v]) simp_all
  also have "map (fill_md md) (map (put k v) ps) = map (fill_md (kv # md)) ps"
    by (simp add: fill_md_put kv)
  finally show ?case .
qed

lemma fill_as_puts:
  "fill contact p =
     (case contact_metadata contact of None \<Rightarrow> (\<lambda>q. q) | Some md \<Rightarrow> fill_md md)
       (put ''email'' (case contact_email contact of None \<Rightarrow> [] | Some e \<Rightarrow> e)
         (put ''phone'' (contact_phone contact)
           (put ''name'' (if contact_name contact = [] then ''there'' else contact_name contact) p)))"
  by (cases p) (auto split: option.splits)

lemma personalize_render:
  assumes "plain_keys contact" "clean_contact contact" "well_formed ps"
  shows "personalizeMessage engine (render ps) contact = Inr (render (map (fill contact) ps))"
proof -
  define n where "n = (if contact_name contact = [] then ''there'' else contact_name contact)"
  define ph where "ph = contact_phone contact"
  define e where "e = (case contact_email contact of None \<Rightarrow> [] | Some e \<Rightarrow> e)"
  define p1 where "p1 = map (put ''name'' n) ps"
  define p2 where "p2 = map (put ''phone'' ph) p1"
  define p3 where "p3 = map (put ''email'' e) p2"
  have "clean ''there''" by (simp add: clean_def is_brace_def)
  with assms(2) have cn: "clean n" by (simp add: n_def clean_contact_def)
  from assms(2) have cp: "clean ph" by (simp add: ph_def clean_contact_def)
  have "clean []" by (simp add: clean_def)
  with assms(2) have ce: "clean e" by (simp add: e_def clean_contact_def split: option.splits)
  have nb: "\<forall>c \<in> set ''name''. \<not> is_brace c" "\<forall>c \<in> set ''phone''. \<not> is_brace c"
    "\<forall>c \<in> set ''email''. \<not> is_brace c"
    by (simp_all add: is_brace_def)
  have d: "CHR ''$'' \<notin> set n" "CHR ''$'' \<notin> set ph" "CHR ''$'' \<notin> set e"
    using cn cp ce unfolding clean_def by blast+
  have w1: "well_formed p1" unfolding p1_def by (rule well_formed_put [OF cn assms(3)])
  have w2: "well_formed p2" unfolding p2_def by (rule well_formed_put [OF cp w1])
  have w3: "well_formed p3" unfolding p3_def by (rule well_formed_put [OF ce w2])
  have r1: "replace_global (render ps) ''{name}'' n = render p1"
    unfolding p1_def using replace_global_render [OF nb(1) d(1) assms(3)] by simp
  have r2: "replace_global (render p1) ''{phone}'' ph = render p2"
    unfolding p2_def using replace_global_render [OF nb(2) d(2) w1] by simp
  have r3: "replace_global (render p2) ''{email}'' e = render p3"
    unfolding p3_def using replace_global_render [OF nb(3) d(3) w2] by simp
  have unfold: "personalizeMessage engine (render ps) contact =
      (case contact_metadata contact of
         None \<Rightarrow> Inr (render p3)
       | Some metadata \<Rightarrow> replace_keys engine metadata (render p3))"
    unfolding personalizeMessage_def Let_def n_def [symmetric] ph_def [symmetric] e_def [symmetric]
      r1 r2 r3 ..
  have f: "fill contact p =
      (case contact_metadata contact of None \<Rightarrow> (\<lambda>q. q) | Some md \<Rightarrow> fill_md md)
        (put ''email'' e (put ''phone'' ph (put ''name'' n p)))" for p
    unfolding n_def ph_def e_def by (rule fill_as_puts)
  show ?thesis
  proof (cases "contact_metadata contact")
    case None
    with f have "map (fill contact) ps = p3" by (simp add: p1_def p2_def p3_def)
    with None unfold show ?thesis by simp
  next
    case (Some md)
    with assms(1,2) have k: "\<forall>key \<in> set (map fst md). \<forall>c \<in> set key. \<not> regex_syntax c"
      and v: "\<forall>v \<in> set (map snd md). clean v"
      by (simp_all add: plain_keys_def metadata_keys_def clean_contact_def)
    from Some f have "map (fill contact) ps = map (fill_md md) p3"
      by (simp add: p1_def p2_def p3_def)
    with replace_keys_render [OF k v w3, of engine] Some unfold show ?thesis by simp
  qed
qed

lemma personalize_examples:
  "personalizeMessage engine ''Hi {x}'' blank_contact = Inr ''Hi {x}''"
  "personalizeMessage engine ''Hello {name}'' (blank_contact\<lparr>contact_name := ''Ann''\<rparr>) = Inr ''Hello Ann''"
  "personalizeMessage engine ''Hello {name}'' blank_contact = Inr ''Hello there''"
  "personalizeMessage engine ''Hi'' (blank_contact\<lparr>contact_metadata := Some [(''a('', ''v'')]\<rparr>)
     = Inl SyntaxError"
  "personalizeMessage engine ''Tel: {phone}, mail: {email}!'' blank_contact = Inr ''Tel: , mail: !''"
  "personalizeMessage engine ''In {city}.'' (blank_contact\<lparr>contact_metadata := Some [(''city'', [])]\<rparr>)
     = Inr ''In .''"
  "personalizeMessage engine ''Hi {x} {name}'' (blank_contact\<lparr>contact_name := ''Ann''\<rparr>)
     = Inr ''Hi {x} Ann''"
  by code_simp+

text \<open>
  Claim C5 as stated fails: with no key \<open>x\<close> in the record, \<open>personalize("Hi {x}", {})\<close> is
  not \<open>"Hi "\<close>, the placeholder stays; and a record with the metadata key \<open>a(\<close> makes
  personalization raise an error.
\<close>

theorem personalize_absent_key_counterexample:
  "\<not> (\<forall>engine. personalizeMessage engine ''Hi {x}'' blank_contact = Inr ''Hi '') \<and>
   \<not> (\<forall>engine. \<exists>out.
        personalizeMessage engine ''Hi'' (blank_contact\<lparr>contact_metadata := Some [(''a('', ''v'')]\<rparr>)
          = Inr out)"
  by (simp add: personalize_examples)

text \<open>
  Claim C5, amended. For a contact whose metadata keys are plain, personalization
  returns a text and raises no error, and a template in which none of the contact's
  placeholders occurs comes back unchanged. For such a contact whose values are clean
  and a template of well-formed pieces, personalization fills every piece: each
  \<open>{name}\<close> becomes the name, or \<open>there\<close> when the name is absent; each \<open>{phone}\<close> and
  \<open>{email}\<close> becomes its value, or the empty text when it is absent; each \<open>{key}\<close> of a
  key in the metadata becomes that key's value, the empty text for an empty value; and
  every placeholder whose key is not in the record stays in the text as it is, also
  next to placeholders that are filled. In particular \<open>personalize("Hi {x}", {})\<close> is
  \<open>"Hi {x}"\<close> and \<open>personalize("Hello {name}", {name:"Ann"})\<close> is \<open>"Hello Ann"\<close>.
\<close>

theorem personalize_keeps_absent_keys:
  "(\<forall>engine template contact. plain_keys contact \<longrightarrow>
      (\<exists>out. personalizeMessage engine template contact = Inr out)) \<and>
   (\<forall>engine template contact.
      plain_keys contact \<and> (\<forall>p \<in> set (placeholders contact). \<not> sublist p template) \<longrightarrow>
      personalizeMessage engine template contact = Inr template) \<and>
   (\<forall>engine pieces contact.
      plain_keys contact \<and> clean_contact contact \<and> well_formed pieces \<longrightarrow>
      personalizeMessage engine (render pieces) contact
        = Inr (render (map (fill contact) pieces))) \<and>
   (\<forall>engine. personalizeMessage engine ''Hi {x}'' blank_contact = Inr ''Hi {x}'') \<and>
   (\<forall>engine. personalizeMessage engine ''Hello {name}'' (blank_contact\<lparr>contact_name := ''Ann''\<rparr>)
      = Inr ''Hello Ann'') \<and>
   (\<forall>engine. personalizeMessage engine ''Hello {name}'' blank_contact = Inr ''Hello there'') \<and>
   (\<forall>engine. personalizeMessage engine ''Tel: {phone}, mail: {email}!'' blank_contact
      = Inr ''Tel: , mail: !'') \<and>
   (\<forall>engine. personalizeMessage engine ''In {city}.''
        (blank_contact\<lparr>contact_metadata := Some [(''city'', [])]\<rparr>) = Inr ''In .'') \<and>
   (\<forall>engine. personalizeMessage engine ''Hi {x} {name}'' (blank_contact\<lparr>contact_name := ''Ann''\<rparr>)
      = Inr ''Hi {x} Ann'')"
proof -
  have a: "\<forall>engine template contact. plain_keys contact \<longrightarrow>
      (\<exists>out. personalizeMessage engine template contact = Inr out)"
    using personalize_total by blast
  have b: "\<forall>engine template contact.
      plain_keys contact \<and> (\<forall>p \<in> set (placeholders contact). \<not> sublist p template) \<longrightarrow>
      personalizeMessage engine template contact = Inr template"
    using personalize_absent by blast
  have c: "\<forall>engine pieces contact.
      plain_keys contact \<and> clean_contact contact \<and> well_formed pieces \<longrightarrow>
      personalizeMessage engine (render pieces) contact
        = Inr (render (map (fill contact) pieces))"
    using personalize_render by blast
  from a b c show ?thesis by (intro conjI) (assumption | simp only: personalize_examples simp_thms)+
qed

theorem personalize_keeps_absent_keys_witness:
  "plain_keys rome_contact \<and> clean_contact rome_contact \<and>
   well_formed [Plain ''Hi '', Placeholder ''x'', Plain '' '', Placeholder ''name'', Plain '' of '',
                Placeholder ''city'', Plain ''. Tel: '', Placeholder ''phone''] \<and>
   personalizeMessage (\<lambda>key repl message. Inr message) ''Hi {x}'' rome_contact = Inr ''Hi {x}'' \<and>
   (\<exists>out. personalizeMessage (\<lambda>key repl message. Inr message) ''Hi {city}'' rome_contact = Inr out) \<and>
   personalizeMessage (\<lambda>key repl message. Inr message) ''Hi {x} {name} of {city}. Tel: {phone}''
     rome_contact = Inr ''Hi {x} Ann of Rome. Tel: ''"
proof -
  let ?pieces = "[Plain ''Hi '', Placeholder ''x'', Plain '' '', Placeholder ''name'', Plain '' of '',
                Placeholder ''city'', Plain ''. Tel: '', Placeholder ''phone'']"
  have p: "plain_keys rome_contact"
    by (simp add: plain_keys_def metadata_keys_def rome_contact_def blank_contact_def
        regex_syntax_def)
  have c: "clean_contact rome_contact"
    by (simp add: clean_contact_def clean_def is_brace_def rome_contact_def blank_contact_def)
  have w: "well_formed ?pieces" by (simp add: well_formed_def is_brace_def)
  have a: "\<forall>p \<in> set (placeholders rome_contact). \<not> sublist p ''Hi {x}''"
    by (simp add: placeholders_def metadata_keys_def rome_contact_def blank_contact_def
        sublist_Cons_right)
  have r: "render ?pieces = ''Hi {x} {name} of {city}. Tel: {phone}''"
    by (simp add: render_def)
  have f: "render (map (fill rome_contact) ?pieces) = ''Hi {x} Ann of Rome. Tel: ''"
    by (simp add: render_def rome_contact_def blank_contact_def)
  note t = personalize_keeps_absent_keys
  from t p have 1: "\<exists>out. personalizeMessage (\<lambda>key repl message. Inr message) ''Hi {city}''
      rome_contact = Inr out"
    by blast
  from t p a have 2: "personalizeMessage (\<lambda>key repl message. Inr message) ''Hi {x}'' rome_contact
      = Inr ''Hi {x}''"
    by blast
  from t p c w have "personalizeMessage (\<lambda>key repl message. Inr message) (render ?pieces)
      rome_contact = Inr (render (map (fill rome_contact) ?pieces))"
    by blast
  with r f have 3: "personalizeMessage (\<lambda>key repl message. Inr message)
      ''Hi {x} {name} of {city}. Tel: {phone}'' rome_contact = Inr ''Hi {x} Ann of Rome. Tel: ''"
    by simp
  from p c w 1 2 3 show ?thesis by (intro conjI)
qed

section \<open>Rate limit of a dispatch tick\<close>

lemma update_keeps_gateway [simp]:
  "gateway_calls (snd (updateQueuedMessage i u w)) = gateway_calls w"
  "outbox (snd (updateQueuedMessage i u w)) = outbox w"
  "gateway_calls (snd (updateCampaign i cu w)) = gateway_calls w"
  "outbox (snd (updateCampaign i cu w)) = outbox w"
  by (simp_all add: updateQueuedMessage_def updateCampaign_def Let_def split: option.splits)

lemma mark_keeps_gateway [simp]:
  "gateway_calls (mark_sent m w) = gateway_calls w"
  "outbox (mark_sent m w) = outbox w"
  "gateway_calls (mark_failed m e w) = gateway_calls w"
  "outbox (mark_failed m e w) = outbox w"
  by (simp_all add: mark_sent_def mark_failed_def Let_def split: option.splits)

lemma check_keeps_gateway [simp]:
  "gateway_calls (checkCampaignCompletion c w) = gateway_calls w"
  "outbox (checkCampaignCompletion c w) = outbox w"
  by (simp_all add: checkCampaignCompletion_def Let_def split: option.splits)

lemma sendMessage_gateway:
  "gateway_calls (snd (sendMessage gateway uuid sid to body w)) = Suc (gateway_calls w)"
  "length (outbox (snd (sendMessage gateway uuid sid to body w))) \<le> Suc (length (outbox w))"
  by (simp_all add: sendMessage_def createMessageAnalytic_def Let_def split: send_outcome.splits)

lemma send_batch_gateway:
  "gateway_calls (send_batch gateway uuid session b ms w) \<le> gateway_calls w + length ms \<and>
   length (outbox (send_batch gateway uuid session b ms w)) \<le> length (outbox w) + length ms"
proof (induction ms arbitrary: w)
  case Nil
  then show ?case by simp
next
  case (Cons m ms)
  show ?case
  proof (cases "case msg_contactId m of None \<Rightarrow> None | Some contactId \<Rightarrow> getContact contactId w")
    case None
    with Cons [of w] show ?thesis by simp
  next
    case (Some contact)
    obtain outcome w1 where s: "sendMessage gateway uuid (session_sessionId session)
        (contact_phone contact) (msg_message m) w = (outcome, w1)"
      by (cases "sendMessage gateway uuid (session_sessionId session)
        (contact_phone contact) (msg_message m) w")
    from sendMessage_gateway [of gateway uuid "session_sessionId session" "contact_phone contact"
        "msg_message m" w] s
    have g: "gateway_calls w1 = Suc (gateway_calls w)" "length (outbox w1) \<le> Suc (length (outbox w))"
      by simp_all
    show ?thesis
    proof (cases outcome)
      case Sent
      let ?w2 = "mark_sent m w1"
      let ?w3 = "if b > 1 then ?w2\<lparr>clock := clock ?w2 + 2000\<rparr> else ?w2"
      have "gateway_calls ?w3 = Suc (gateway_calls w)" "length (outbox ?w3) \<le> Suc (length (outbox w))"
        using g by simp_all
      with Cons [of ?w3] Some s Sent show ?thesis by (simp add: Let_def)
    next
      case (Failed e)
      with Cons [of "mark_failed m e w1"] Some s g show ?thesis by simp
    next
      case FailedOther
      with Cons [of "mark_failed m ''Unknown error'' w1"] Some s g show ?thesis by simp
    qed
  qed
qed

lemma slice_from_0_length: "0 \<le> e \<Longrightarrow> length (slice_from_0 e xs) \<le> nat e"
  by (simp add: slice_from_0_def)

text \<open>
  Claim C2 as stated fails: with entries of two campaigns pending on one session, the
  tick sends three messages, two of them for a campaign whose rate limit is 1; and a
  campaign whose rate limit is 0 has its entry sent.
\<close>

theorem rate_limit_of_owner_counterexample:
  "\<not> rate_limit_claim mixed_world
       (processQueuedMessages (\<lambda>n. Sent) (\<lambda>n. ''u'') mixed_world) ''s1'' \<and>
   \<not> rate_limit_claim zero_limit_world
       (processQueuedMessages (\<lambda>n. Sent) (\<lambda>n. ''u'') zero_limit_world) ''s1''"
  by code_simp

text \<open>
  Claim C2, amended. Whenever the dispatch loop handles a session, at any point of a
  tick, it asks the gateway to send at most as many messages as the rate limit of that
  session says, and so at most that many go out: the rate limit of the campaign that owns
  the first pending entry of the session, or 30 when that entry has no campaign, the
  campaign is not stored, or its rate limit is \<open>null\<close> or 0; this for a rate limit that
  is not negative.
\<close>

theorem dispatch_within_first_rate_limit:
  assumes "0 \<le> session_rate_limit session w"
  shows "gateway_calls (process_session gateway uuid session w)
           \<le> gateway_calls w + nat (session_rate_limit session w) \<and>
         length (outbox (process_session gateway uuid session w))
           \<le> length (outbox w) + nat (session_rate_limit session w)"
proof (cases "session_status session \<noteq> ''connected''")
  case True
  then show ?thesis by (simp add: process_session_def)
next
  case connected: False
  show ?thesis
  proof (cases "getPendingMessages (session_id session) w")
    case Nil
    with connected show ?thesis by (simp add: process_session_def)
  next
    case (Cons firstMessage others)
    define limit where "limit = rate_limit_of (first_campaign firstMessage w)"
    define b where "b = min limit (int (length (firstMessage # others)))"
    define batch where "batch = slice_from_0 b (firstMessage # others)"
    define w1 where "w1 = send_batch gateway uuid session b batch w"
    from assms Cons have l: "0 \<le> limit" "session_rate_limit session w = limit"
      by (simp_all add: session_rate_limit_def limit_def)
    then have "0 \<le> b" by (simp add: b_def)
    then have "length batch \<le> nat b" unfolding batch_def by (rule slice_from_0_length)
    moreover have "nat b \<le> nat limit" by (simp add: b_def)
    ultimately have len: "length batch \<le> nat limit" by simp
    from send_batch_gateway [of gateway uuid session b batch w] len
    have w1: "gateway_calls w1 \<le> gateway_calls w + nat limit"
      "length (outbox w1) \<le> length (outbox w) + nat limit"
      by (simp_all add: w1_def)
    have "process_session gateway uuid session w =
        (case msg_campaignId firstMessage of
           None \<Rightarrow> w1
         | Some campaignId \<Rightarrow> if campaignId = [] then w1 else checkCampaignCompletion campaignId w1)"
      unfolding w1_def batch_def b_def limit_def
      using connected Cons by (simp add: process_session_def Let_def)
    with w1 l(2) show ?thesis by (simp split: option.splits)
  qed
qed

theorem dispatch_within_first_rate_limit_witness:
  "0 \<le> session_rate_limit example_session limited_world \<and>
   session_rate_limit example_session limited_world = 2 \<and>
   gateway_calls (process_session (\<lambda>n. Sent) (\<lambda>n. ''u'') example_session limited_world) = 2 \<and>
   gateway_calls (process_session (\<lambda>n. Sent) (\<lambda>n. ''u'') example_session limited_world)
     \<le> gateway_calls limited_world + nat (session_rate_limit example_session limited_world)"
proof -
  have l: "session_rate_limit example_session limited_world = 2" by code_simp
  then have h: "0 \<le> session_rate_limit example_session limited_world" by simp
  have c: "gateway_calls (process_session (\<lambda>n. Sent) (\<lambda>n. ''u'') example_session limited_world) = 2"
    by code_simp
  from dispatch_within_first_rate_limit [OF h, of "\<lambda>n. Sent" "\<lambda>n. ''u''"] l h c
  show ?thesis by simp
qed

section \<open>Paused campaigns\<close>

text \<open>
  Claim C3. The dispatch loop is claimed to skip the pending entries of a paused
  campaign. It never reads the status of a campaign: run on a store whose only campaign
  is paused, the tick sends that campaign's pending entry through the gateway, marks it
  \<open>sent\<close>, counts it in \<open>messagesSent\<close> and sets the campaign to \<open>completed\<close>.
\<close>

theorem paused_campaign_is_sent:
  "map_option campaign_status (getCampaign ''c1'' paused_world) = Some ''paused'' \<and>
   outbox (processQueuedMessages (\<lambda>n. Sent) (\<lambda>n. ''u'') paused_world)
     = [(''main'', ''111'', ''Hi Ann'')] \<and>
   map_option msg_status
     (map_of (messageQueue (processQueuedMessages (\<lambda>n. Sent) (\<lambda>n. ''u'') paused_world)) ''m1'')
     = Some ''sent'' \<and>
   map_option campaign_messagesSent
     (getCampaign ''c1'' (processQueuedMessages (\<lambda>n. Sent) (\<lambda>n. ''u'') paused_world))
     = Some (Some 1) \<and>
   map_option campaign_status
     (getCampaign ''c1'' (processQueuedMessages (\<lambda>n. Sent) (\<lambda>n. ''u'') paused_world))
     = Some ''completed''"
  by code_simp

section \<open>Completion of campaigns\<close>

text \<open>
  Claim C4. After a tick, every campaign touched by it that has no pending entry left
  is claimed to be \<open>completed\<close>. The loop checks only the campaign of the first pending
  entry of a session: with entries of two campaigns on one session, the tick sends all
  three entries, completes the first campaign and leaves the second one \<open>sending\<close>
  with no pending entry; the next tick finds nothing pending and changes nothing.
\<close>

theorem drained_campaign_stays_sending:
  "filter (\<lambda>msg. msg_status msg = ''pending'')
     (getMessageQueue (processQueuedMessages (\<lambda>n. Sent) (\<lambda>n. ''u'') mixed_world)) = [] \<and>
   map (\<lambda>msg. (msg_campaignId msg, msg_status msg))
     (getMessageQueue (processQueuedMessages (\<lambda>n. Sent) (\<lambda>n. ''u'') mixed_world))
     = [(Some ''c1'', ''sent''), (Some ''c2'', ''sent''), (Some ''c2'', ''sent'')] \<and>
   map_option campaign_status
     (getCampaign ''c1'' (processQueuedMessages (\<lambda>n. Sent) (\<lambda>n. ''u'') mixed_world))
     = Some ''completed'' \<and>
   map_option campaign_status
     (getCampaign ''c2'' (processQueuedMessages (\<lambda>n. Sent) (\<lambda>n. ''u'') mixed_world))
     = Some ''sending'' \<and>
   processQueuedMessages (\<lambda>n. Sent) (\<lambda>n. ''u'')
     (processQueuedMessages (\<lambda>n. Sent) (\<lambda>n. ''u'') mixed_world)
     = processQueuedMessages (\<lambda>n. Sent) (\<lambda>n. ''u'') mixed_world"
  by code_simp

section \<open>First-message auto-replies\<close>

lemma any_rule_replies:
  "outbox (snd (handleIncomingMessages (\<lambda>n. Sent) (\<lambda>n. ''u'') ''main'' [first_hello]
     (empty_world\<lparr>autoReplyRules := [(''r1'', welcome_rule\<lparr>rule_triggerType := ''any''\<rparr>)]\<rparr>)))
     = [(''main'', ''555'', ''Welcome!'')]"
  by code_simp

text \<open>
  Claim C6. A rule of trigger type \<open>first_message\<close> is claimed to match when the sender
  has no recorded inbound message. The trigger check has no case for that type and
  falls to its default: such a rule matches no message at all. A first message from a
  sender without history, to a session whose only rule is an active \<open>first_message\<close>
  rule, is logged as received and gets no reply, neither at once nor through a timer
  (the same rule with type \<open>any\<close> replies: \<open>any_rule_replies\<close>).
\<close>

theorem first_message_never_matches:
  "checkAutoReplyTrigger messageText (rule\<lparr>rule_triggerType := ''first_message''\<rparr>) = Inr False \<and>
   messageAnalytics welcome_world = [] \<and>
   fst (handleIncomingMessages (\<lambda>n. Sent) (\<lambda>n. ''u'') ''main'' [first_hello] welcome_world) = None \<and>
   outbox (snd (handleIncomingMessages (\<lambda>n. Sent) (\<lambda>n. ''u'') ''main'' [first_hello] welcome_world))
     = [] \<and>
   reply_timers (snd (handleIncomingMessages (\<lambda>n. Sent) (\<lambda>n. ''u'') ''main'' [first_hello] welcome_world))
     = [] \<and>
   map (\<lambda>a. (analytic_contactPhone a, analytic_messageType a))
     (map snd (messageAnalytics
        (snd (handleIncomingMessages (\<lambda>n. Sent) (\<lambda>n. ''u'') ''main'' [first_hello] welcome_world))))
     = [(''555'', ''received'')]"
proof -
  have "checkAutoReplyTrigger messageText (rule\<lparr>rule_triggerType := ''first_message''\<rparr>) = Inr False"
    by (simp add: checkAutoReplyTrigger_def)
  moreover have "messageAnalytics welcome_world = []" by code_simp
  moreover have "fst (handleIncomingMessages (\<lambda>n. Sent) (\<lambda>n. ''u'') ''main'' [first_hello] welcome_world) = None"
    by code_simp
  moreover have "outbox (snd (handleIncomingMessages (\<lambda>n. Sent) (\<lambda>n. ''u'') ''main'' [first_hello] welcome_world)) = []"
    by code_simp
  moreover have "reply_timers (snd (handleIncomingMessages (\<lambda>n. Sent) (\<lambda>n. ''u'') ''main'' [first_hello] welcome_world)) = []"
    by code_simp
  moreover have "map (\<lambda>a. (analytic_contactPhone a, analytic_messageType a))
     (map snd (messageAnalytics
        (snd (handleIncomingMessages (\<lambda>n. Sent) (\<lambda>n. ''u'') ''main'' [first_hello] welcome_world))))
     = [(''555'', ''received'')]"
    by code_simp
  ultimately show ?thesis by blast
qed

section \<open>Campaign expansion\<close>

lemma update_fresh_key: "k \<notin> fst ` set al \<Longrightarrow> AList.update k v al = al @ [(k, v)]"
  by (induction al) auto

lemma recipients_code:
  "recipients campaign w =
     (case campaign_contactGroups campaign of
        None \<Rightarrow> getContacts w
      | Some groups \<Rightarrow> if length groups = 0 then getContacts w else getContactsByGroups groups w)"
proof (cases "campaign_contactGroups campaign")
  case None
  then show ?thesis by (simp add: recipients_def getContacts_def groups_of_def)
next
  case (Some groups)
  have "filter (\<lambda>contact. groups_of (contact_groups contact) \<inter> set groups \<noteq> {})
        (map snd (contacts w)) = getContactsByGroups groups w"
    unfolding getContactsByGroups_def
    by (rule filter_cong) (auto simp: groups_of_def split: option.splits)
  moreover have "groups_of (campaign_contactGroups campaign) = set groups"
    using Some by (simp add: groups_of_def)
  ultimately show ?thesis
    using Some by (simp add: recipients_def getContacts_def)
qed

lemma createQueuedMessage_fresh:
  assumes "fresh_ids uuid w" "ins_campaignId ins = Some cid" "cid \<noteq> []" "ins_status ins = Some ''pending''"
  shows "fresh_ids uuid (snd (createQueuedMessage uuid ins w))"
    and "\<exists>entry. map snd (messageQueue (snd (createQueuedMessage uuid ins w)))
            = map snd (messageQueue w) @ [entry]
          \<and> msg_campaignId entry = Some cid \<and> msg_status entry = ''pending''
          \<and> msg_contactId entry = or_null (ins_contactId ins)"
    and "campaigns (snd (createQueuedMessage uuid ins w)) = campaigns w"
proof -
  let ?i = "uuid (uuid_count w)"
  from assms(1) have nk: "?i \<notin> fst ` set (messageQueue w)" and inj: "inj uuid"
    and later: "\<forall>i \<ge> uuid_count w. uuid i \<notin> fst ` set (messageQueue w)"
    by (simp_all add: fresh_ids_def)
  obtain entry where e: "createQueuedMessage uuid ins w =
      (entry, w\<lparr>messageQueue := AList.update ?i entry (messageQueue w), uuid_count := Suc (uuid_count w)\<rparr>)"
    and ef: "msg_campaignId entry = or_null (ins_campaignId ins)"
      "msg_contactId entry = or_null (ins_contactId ins)"
      "msg_status entry = (case ins_status ins of None \<Rightarrow> ''pending''
          | Some st \<Rightarrow> if st = [] then ''pending'' else st)"
    by (simp add: createQueuedMessage_def Let_def)
  have q: "messageQueue (snd (createQueuedMessage uuid ins w)) = messageQueue w @ [(?i, entry)]"
    using e nk by (simp add: update_fresh_key)
  from ef assms(2-4) have "msg_campaignId entry = Some cid" "msg_status entry = ''pending''"
    by (simp_all add: or_null_def truthy_def)
  with q ef(2) show "\<exists>entry. map snd (messageQueue (snd (createQueuedMessage uuid ins w)))
            = map snd (messageQueue w) @ [entry]
          \<and> msg_campaignId entry = Some cid \<and> msg_status entry = ''pending''
          \<and> msg_contactId entry = or_null (ins_contactId ins)"
    by simp
  show "campaigns (snd (createQueuedMessage uuid ins w)) = campaigns w"
    using e by simp
  have "uuid i \<notin> fst ` set (messageQueue w @ [(?i, entry)])" if "i \<ge> Suc (uuid_count w)" for i
  proof -
    from that have "i \<noteq> uuid_count w" by simp
    with inj have "uuid i \<noteq> ?i" by (auto dest: injD)
    moreover from that later have "uuid i \<notin> fst ` set (messageQueue w)" by simp
    ultimately show ?thesis by simp
  qed
  with inj q e show "fresh_ids uuid (snd (createQueuedMessage uuid ins w))"
    by (simp add: fresh_ids_def)
qed

lemma enqueue_contacts_entries:
  assumes "enqueue_contacts engine rnd uuid campaign j cs w = Some (err, w3)"
    "fresh_ids uuid w" "campaign_id campaign \<noteq> []"
  shows "\<exists>news. map snd (messageQueue w3) = map snd (messageQueue w) @ news \<and>
           length news \<le> length cs \<and> (err = None \<longleftrightarrow> length news = length cs) \<and>
           (\<forall>entry \<in> set news. msg_campaignId entry = Some (campaign_id campaign)
               \<and> msg_status entry = ''pending'') \<and>
           map msg_contactId news
             = map (\<lambda>contact. or_null (Some (contact_id contact))) (take (length news) cs) \<and>
           campaigns w3 = campaigns w"
  using assms
proof (induction cs arbitrary: j w)
  case Nil
  then show ?case by simp
next
  case (Cons contact rest)
  show ?case
  proof (cases "personalizeMessage engine (campaign_message campaign) contact")
    case (Inl e)
    with Cons.prems(1) have "err = Some e" "w3 = w" by simp_all
    then show ?thesis by simp
  next
    case (Inr personalized)
    show ?thesis
    proof (cases "parseSpintax (rnd j) personalized")
      case None
      with Inr Cons.prems(1) show ?thesis by simp
    next
      case (Some body)
      define ins where "ins = \<lparr> ins_campaignId = Some (campaign_id campaign),
                      ins_contactId = Some (contact_id contact),
                      ins_message = body,
                      ins_mediaUrl = campaign_mediaUrl campaign,
                      ins_mediaType = campaign_mediaType campaign,
                      ins_status = Some ''pending'',
                      ins_scheduledAt = Some (clock w),
                      ins_errorMessage = None,
                      ins_sessionId = campaign_sessionId campaign \<rparr>"
      define w1 where "w1 = snd (createQueuedMessage uuid ins w)"
      from Inr Some Cons.prems(1)
      have r: "enqueue_contacts engine rnd uuid campaign (Suc j) rest w1 = Some (err, w3)"
        by (simp add: ins_def w1_def)
      have i: "ins_campaignId ins = Some (campaign_id campaign)" "ins_status ins = Some ''pending''"
        by (simp_all add: ins_def)
      from createQueuedMessage_fresh [OF Cons.prems(2) i(1) Cons.prems(3) i(2)]
      obtain entry where f: "fresh_ids uuid w1"
        and q: "map snd (messageQueue w1) = map snd (messageQueue w) @ [entry]"
        and en: "msg_campaignId entry = Some (campaign_id campaign)" "msg_status entry = ''pending''"
          "msg_contactId entry = or_null (ins_contactId ins)"
        and c: "campaigns w1 = campaigns w"
        unfolding w1_def by blast
      have ci: "ins_contactId ins = Some (contact_id contact)" by (simp add: ins_def)
      from Cons.IH [OF r f Cons.prems(3)]
      obtain news where n: "map snd (messageQueue w3) = map snd (messageQueue w1) @ news"
        "length news \<le> length rest" "err = None \<longleftrightarrow> length news = length rest"
        "\<forall>entry \<in> set news. msg_campaignId entry = Some (campaign_id campaign)
               \<and> msg_status entry = ''pending''"
        "map msg_contactId news
           = map (\<lambda>contact. or_null (Some (contact_id contact))) (take (length news) rest)"
        "campaigns w3 = campaigns w1"
        by blast
      let ?news = "entry # news"
      from n q en ci c have "map snd (messageQueue w3) = map snd (messageQueue w) @ ?news \<and>
           length ?news \<le> length (contact # rest) \<and>
           (err = None \<longleftrightarrow> length ?news = length (contact # rest)) \<and>
           (\<forall>entry \<in> set ?news. msg_campaignId entry = Some (campaign_id campaign)
               \<and> msg_status entry = ''pending'') \<and>
           map msg_contactId ?news
             = map (\<lambda>contact. or_null (Some (contact_id contact)))
                 (take (length ?news) (contact # rest)) \<and>
           campaigns w3 = campaigns w"
        by simp
      then show ?thesis by blast
    qed
  qed
qed

lemma updateCampaign_stored:
  assumes "getCampaign i w = Some c"
  shows "getCampaign i (snd (updateCampaign i u w)) = Some (spread_campaign c u)"
    and "messageQueue (snd (updateCampaign i u w)) = messageQueue w"
    and "contacts (snd (updateCampaign i u w)) = contacts w"
    and "uuid_count (snd (updateCampaign i u w)) = uuid_count w"
  using assms by (simp_all add: getCampaign_def updateCampaign_def Let_def update_conv)

lemma updateCampaign_keeps_fresh:
  "fresh_ids uuid w \<Longrightarrow> fresh_ids uuid (snd (updateCampaign i u w))"
  by (simp add: fresh_ids_def updateCampaign_def Let_def split: option.splits)

lemma updateCampaign_keeps_queue:
  "messageQueue (snd (updateCampaign i u w)) = messageQueue w"
  by (simp add: updateCampaign_def Let_def split: option.splits)

lemma processCampaign_recipients:
  "processCampaign engine rnd uuid campaign w =
     (let w1 = snd (updateCampaign (campaign_id campaign)
                 (no_campaign_update\<lparr>set_campaign_status := Some ''sending''\<rparr>) w);
          contacts = recipients campaign w1;
          w2 = snd (updateCampaign (campaign_id campaign)
                 (no_campaign_update\<lparr>set_campaign_totalRecipients :=
                    Some (Some (int (length contacts)))\<rparr>) w1)
      in case enqueue_contacts engine rnd uuid campaign 0 contacts w2 of
           None \<Rightarrow> None
         | Some (None, w3) \<Rightarrow> Some w3
         | Some (Some e, w3) \<Rightarrow>
             Some (snd (updateCampaign (campaign_id campaign)
                     (no_campaign_update\<lparr>set_campaign_status := Some ''failed''\<rparr>) w3)))"
  unfolding processCampaign_def recipients_code ..

lemma inj_example_uuid: "inj example_uuid"
proof (rule injI)
  fix a b
  assume "example_uuid a = example_uuid b"
  then have "length (example_uuid a) = length (example_uuid b)" by simp
  then show "a = b" by (simp add: example_uuid_def)
qed

text \<open>
  Claim C1 as stated fails: with two recipients, the second of which has a metadata key
  that is no regular expression, expansion creates the entry of the first, fails on the
  second, and returns with the campaign \<open>failed\<close> and that one entry still pending in
  the queue.
\<close>

theorem expansion_not_atomic_counterexample:
  "map_option (\<lambda>w'. expansion_atomic w' ''c1'' 2)
     (processCampaign (\<lambda>key repl message. Inr message) (\<lambda>j i. 0) example_uuid
        (example_campaign\<lparr>campaign_status := ''draft''\<rparr>) partial_world) = Some False \<and>
   map_option (\<lambda>w'. (map_option campaign_status (getCampaign ''c1'' w'),
                      map (\<lambda>entry. (msg_contactId entry, msg_status entry)) (entries_of ''c1'' w')))
     (processCampaign (\<lambda>key repl message. Inr message) (\<lambda>j i. 0) example_uuid
        (example_campaign\<lparr>campaign_status := ''draft''\<rparr>) partial_world)
     = Some (Some ''failed'', [(Some ''k1'', ''pending'')])"
  by code_simp

text \<open>
  Claim C1, amended. For a stored campaign and fresh identifiers, when expansion returns
  it has appended to the queue one pending entry of the campaign for each of the first
  \<open>k\<close> recipients, in their order, and set \<open>totalRecipients\<close> to the number of
  recipients; the campaign ends \<open>sending\<close> when every recipient has its entry, and
  \<open>failed\<close> otherwise, in which case the entries created before the error stay in the
  queue.
\<close>

theorem expansion_keeps_partial_queue:
  assumes "getCampaign (campaign_id campaign) w \<noteq> None" "campaign_id campaign \<noteq> []"
    "fresh_ids uuid w" "processCampaign engine rnd uuid campaign w = Some w'"
  shows "\<exists>news. map snd (messageQueue w') = map snd (messageQueue w) @ news \<and>
           length news \<le> length (recipients campaign w) \<and>
           (\<forall>entry \<in> set news. msg_campaignId entry = Some (campaign_id campaign)
               \<and> msg_status entry = ''pending'') \<and>
           map msg_contactId news
             = map (\<lambda>contact. or_null (Some (contact_id contact)))
                 (take (length news) (recipients campaign w)) \<and>
           map_option campaign_status (getCampaign (campaign_id campaign) w')
             = Some (if length news = length (recipients campaign w) then ''sending'' else ''failed'') \<and>
           map_option campaign_totalRecipients (getCampaign (campaign_id campaign) w')
             = Some (Some (int (length (recipients campaign w))))"
proof -
  let ?i = "campaign_id campaign"
  let ?sending = "no_campaign_update\<lparr>set_campaign_status := Some ''sending''\<rparr>"
  let ?failed = "no_campaign_update\<lparr>set_campaign_status := Some ''failed''\<rparr>"
  from assms(1) obtain c0 where c0: "getCampaign ?i w = Some c0" by blast
  define w1 where "w1 = snd (updateCampaign ?i ?sending w)"
  define cs where "cs = recipients campaign w"
  let ?total = "no_campaign_update\<lparr>set_campaign_totalRecipients := Some (Some (int (length cs)))\<rparr>"
  define w2 where "w2 = snd (updateCampaign ?i ?total w1)"
  define c2 where "c2 = spread_campaign (spread_campaign c0 ?sending) ?total"
  have g1: "getCampaign ?i w1 = Some (spread_campaign c0 ?sending)"
    unfolding w1_def by (rule updateCampaign_stored(1) [OF c0])
  have g2: "getCampaign ?i w2 = Some c2"
    unfolding w2_def c2_def by (rule updateCampaign_stored(1) [OF g1])
  have c2f: "campaign_status c2 = ''sending''"
    "campaign_totalRecipients c2 = Some (int (length cs))"
    by (simp_all add: c2_def spread_campaign_def overlay_def no_campaign_update_def)
  have cont: "contacts w1 = contacts w"
    unfolding w1_def by (rule updateCampaign_stored(3) [OF c0])
  then have rec: "recipients campaign w1 = cs"
    by (simp add: cs_def recipients_def)
  have q2: "messageQueue w2 = messageQueue w"
    by (simp add: w2_def w1_def updateCampaign_keeps_queue)
  have f2: "fresh_ids uuid w2"
    unfolding w2_def w1_def by (intro updateCampaign_keeps_fresh assms(3))
  have unfold: "processCampaign engine rnd uuid campaign w =
      (case enqueue_contacts engine rnd uuid campaign 0 cs w2 of
         None \<Rightarrow> None
       | Some (None, w3) \<Rightarrow> Some w3
       | Some (Some e, w3) \<Rightarrow> Some (snd (updateCampaign ?i ?failed w3)))"
    unfolding processCampaign_recipients Let_def w1_def [symmetric] rec w2_def [symmetric] ..
  with assms(4) obtain err w3 where e: "enqueue_contacts engine rnd uuid campaign 0 cs w2 = Some (err, w3)"
    by (cases "enqueue_contacts engine rnd uuid campaign 0 cs w2") auto
  from enqueue_contacts_entries [OF e f2 assms(2)] q2
  obtain news where n: "map snd (messageQueue w3) = map snd (messageQueue w) @ news"
    "length news \<le> length cs" "err = None \<longleftrightarrow> length news = length cs"
    "\<forall>entry \<in> set news. msg_campaignId entry = Some ?i \<and> msg_status entry = ''pending''"
    "map msg_contactId news
       = map (\<lambda>contact. or_null (Some (contact_id contact))) (take (length news) cs)"
    "campaigns w3 = campaigns w2"
    by auto
  from n(6) g2 have g3: "getCampaign ?i w3 = Some c2" by (simp add: getCampaign_def)
  have "map snd (messageQueue w') = map snd (messageQueue w) @ news \<and>
      map_option campaign_status (getCampaign ?i w')
        = Some (if length news = length cs then ''sending'' else ''failed'') \<and>
      map_option campaign_totalRecipients (getCampaign ?i w') = Some (Some (int (length cs)))"
  proof (cases err)
    case None
    with unfold e assms(4) have "w' = w3" by simp
    with None n g3 c2f show ?thesis by simp
  next
    case (Some er)
    with unfold e assms(4) have w': "w' = snd (updateCampaign ?i ?failed w3)" by simp
    have "getCampaign ?i w' = Some (spread_campaign c2 ?failed)"
      unfolding w' by (rule updateCampaign_stored(1) [OF g3])
    moreover have "campaign_status (spread_campaign c2 ?failed) = ''failed''"
      "campaign_totalRecipients (spread_campaign c2 ?failed) = Some (int (length cs))"
      using c2f by (simp_all add: spread_campaign_def overlay_def no_campaign_update_def)
    moreover have "messageQueue w' = messageQueue w3"
      unfolding w' by (rule updateCampaign_keeps_queue)
    ultimately show ?thesis using Some n by simp
  qed
  with n(2,4,5) show ?thesis unfolding cs_def by blast
qed

theorem expansion_keeps_partial_queue_witness:
  "fresh_ids example_uuid expand_world \<and>
   (\<exists>w'. processCampaign (\<lambda>key repl message. Inr message) (\<lambda>j i. 0) example_uuid
            (example_campaign\<lparr>campaign_status := ''draft''\<rparr>) expand_world = Some w' \<and>
          map_option campaign_status (getCampaign ''c1'' w') = Some ''sending'' \<and>
          map msg_message (map snd (messageQueue w')) = [''Hi Ann'', ''Hi Bob''])"
proof -
  let ?c = "example_campaign\<lparr>campaign_status := ''draft''\<rparr>"
  have f: "fresh_ids example_uuid expand_world"
    by (simp add: fresh_ids_def inj_example_uuid expand_world_def empty_world_def)
  have s: "getCampaign (campaign_id ?c) expand_world \<noteq> None"
    by (simp add: getCampaign_def expand_world_def example_campaign_def)
  have i: "campaign_id ?c \<noteq> []" by (simp add: example_campaign_def)
  have r: "length (recipients ?c expand_world) = 2"
    by (simp add: recipients_def groups_of_def example_campaign_def expand_world_def)
  have "map_option (\<lambda>w'. map msg_message (map snd (messageQueue w')))
      (processCampaign (\<lambda>key repl message. Inr message) (\<lambda>j i. 0) example_uuid ?c expand_world)
      = Some [''Hi Ann'', ''Hi Bob'']"
    by code_simp
  then obtain w' where w': "processCampaign (\<lambda>key repl message. Inr message) (\<lambda>j i. 0)
      example_uuid ?c expand_world = Some w'"
    and m: "map msg_message (map snd (messageQueue w')) = [''Hi Ann'', ''Hi Bob'']"
    by auto
  from expansion_keeps_partial_queue [OF s i f w']
  obtain news where n: "map snd (messageQueue w') = map snd (messageQueue expand_world) @ news"
    "map_option campaign_status (getCampaign (campaign_id ?c) w')
       = Some (if length news = length (recipients ?c expand_world) then ''sending'' else ''failed'')"
    by blast
  from n(1) m have "length news = 2"
    by (simp add: expand_world_def empty_world_def) (metis length_map length_Cons list.size(3) numeral_2_eq_2)
  with n(2) r have st: "map_option campaign_status (getCampaign ''c1'' w') = Some ''sending''"
    by (simp add: example_campaign_def)
  from w' st m have "\<exists>w'. processCampaign (\<lambda>key repl message. Inr message) (\<lambda>j i. 0)
      example_uuid ?c expand_world = Some w' \<and>
      map_option campaign_status (getCampaign ''c1'' w') = Some ''sending'' \<and>
      map msg_message (map snd (messageQueue w')) = [''Hi Ann'', ''Hi Bob'']"
    by (intro exI [of _ w'] conjI)
  with f show ?thesis by (rule conjI)
qed

section \<open>Scheduled campaigns\<close>

lemma cron_fires_before_scheduled_second:
  "cron_matches (dateToCronExpression (fields_at 0 1800009045000)) (fields_at 0 1800009000000) \<and>
   \<not> cron_matches (dateToCronExpression (fields_at 0 1800009045000)) (fields_at 0 1800009045000)"
  by code_simp

text \<open>
  Claim C7. Scheduling a campaign for a future time is claimed to arm a one-shot timer
  that fires the expansion exactly once, at that time. The scheduler sets the status
  \<open>scheduled\<close> and registers a cron task under the campaign's identifier, but the task's
  expression names a minute, hour, day and month and no year, and the callback removes
  the task from \<open>scheduledJobs\<close> without stopping it. A campaign scheduled on 2027-01-01
  for 2027-01-15 10:30:00 UTC is expanded at that time and, although the campaign is
  cancelled in between, again at 2028-01-15 10:30:00 UTC: the queue then holds two
  entries for its one recipient. (The task is due at second 0 of its minute, so a time
  with seconds is also fired early: \<open>cron_fires_before_scheduled_second\<close>.)
\<close>

theorem scheduled_campaign_fires_every_year:
  "map_option (\<lambda>w. (map_option campaign_status (getCampaign ''c1'' w),
                     map task_expression (cron_tasks w), map task_running (cron_tasks w),
                     scheduledJobs w, length (entries_of ''c1'' w))) after_schedule
     = Some (Some ''scheduled'', [[At 30, At 10, At 15, At 1, Every]], [True], [(''c1'', 0)], 0) \<and>
   map_option (\<lambda>w. (map task_running (cron_tasks w), scheduledJobs w,
                     length (entries_of ''c1'' w))) after_first_fire
     = Some ([True], [], 1) \<and>
   map_option (\<lambda>w. (map task_running (cron_tasks w), scheduledJobs w,
                     length (entries_of ''c1'' w))) after_second_fire
     = Some ([True], [], 2)"
proof -
  have 1: "map_option (\<lambda>w. (map_option campaign_status (getCampaign ''c1'' w),
                     map task_expression (cron_tasks w), map task_running (cron_tasks w),
                     scheduledJobs w, length (entries_of ''c1'' w))) after_schedule
     = Some (Some ''scheduled'', [[At 30, At 10, At 15, At 1, Every]], [True], [(''c1'', 0)], 0)"
    by code_simp
  have 2: "map_option (\<lambda>w. (map task_running (cron_tasks w), scheduledJobs w,
                     length (entries_of ''c1'' w))) after_first_fire
     = Some ([True], [], 1)"
    by code_simp
  have 3: "map_option (\<lambda>w. (map task_running (cron_tasks w), scheduledJobs w,
                     length (entries_of ''c1'' w))) after_second_fire
     = Some ([True], [], 2)"
    by code_simp
  from 1 2 3 show ?thesis by (intro conjI)
qed

end
